theory Spec2Isabelle
  imports Main
begin

section \<open>C strings and the library calls the shell uses\<close>

text \<open>
  A C string is modelled by the list of its characters before the terminating NUL; a
  \<^verbatim>\<open>char *\<close> that may be \<^verbatim>\<open>NULL\<close> is a \<open>string option\<close>. The arrays
  \<^verbatim>\<open>char *tokens[512]\<close>, \<^verbatim>\<open>char *argv[512]\<close> and \<^verbatim>\<open>int redir[4]\<close> are functions from the
  index; a store outside the declared bounds is undefined behaviour in C and is a
  \<open>fault\<close> of the model.
\<close>

definition NUL :: char where
  "NUL = CHR 0x00"

definition NL :: char where
  "NL = CHR 0x0A"

datatype fault = OutOfBounds | NullDeref

text \<open>\<^verbatim>\<open>strncmp(a, b, n) == 0\<close>: the first \<open>n\<close> characters of the two NUL-terminated
  strings agree.\<close>

definition strncmp_eq :: "string \<Rightarrow> string \<Rightarrow> nat \<Rightarrow> bool" where
  "strncmp_eq a b n = (take n (a @ [NUL]) = take n (b @ [NUL]))"

text \<open>\<^verbatim>\<open>strtok(_, "\t ")\<close>: skips the delimiters, returns the next token (or \<^verbatim>\<open>NULL\<close>) and
  the position saved for the next call.\<close>

definition delim :: "char \<Rightarrow> bool" where
  "delim c = (c = CHR 0x09 \<or> c = CHR '' '')"

definition strtok :: "string \<Rightarrow> string option \<times> string" where
  "strtok s =
     (let s1 = dropWhile delim s in
      if s1 = [] then (None, [])
      else (Some (takeWhile (\<lambda>c. \<not> delim c) s1),
            drop 1 (dropWhile (\<lambda>c. \<not> delim c) s1)))"

text \<open>\<^verbatim>\<open>strrchr(s, c)\<close>: the suffix of \<open>s\<close> that starts at the last \<open>c\<close>.\<close>

fun strrchr :: "string \<Rightarrow> char \<Rightarrow> string option" where
  "strrchr [] c = None"
| "strrchr (x # xs) c =
     (case strrchr xs c of
        Some r \<Rightarrow> Some r
      | None \<Rightarrow> if x = c then Some (x # xs) else None)"

text \<open>\<^verbatim>\<open>write(fd, lit, n)\<close> on a string literal: the first \<open>n\<close> bytes of the literal and
  its terminating NUL.\<close>

definition write_lit :: "string \<Rightarrow> nat \<Rightarrow> string" where
  "write_lit lit n = take n (lit @ [NUL])"

section \<open>parsing.c\<close>

record pstate =
  tokens :: "nat \<Rightarrow> string option"
  argv :: "nat \<Rightarrow> string option"
  redir :: "nat \<Rightarrow> int"
  save :: string
  perr :: string

text \<open>\<open>save\<close> is the position \<^verbatim>\<open>strtok\<close> keeps between calls, \<open>perr\<close> the bytes that
  parsing wrote to standard error.\<close>

definition next_tok :: "pstate \<Rightarrow> string option \<times> pstate" where
  "next_tok st = (let (t, sv) = strtok (save st) in (t, st\<lparr>save := sv\<rparr>))"

definition id_rd_tok :: "string option \<Rightarrow> int" where
  "id_rd_tok tok =
     (case tok of
        None \<Rightarrow> - 1
      | Some t \<Rightarrow>
          if strncmp_eq t ''<'' 2 then 0
          else if strncmp_eq t ''>'' 2 then 1
          else if strncmp_eq t ''>>'' 3 then 2
          else - 1)"

text \<open>\<open>set_tok\<close> returns its \<^verbatim>\<open>int\<close> result together with the updated \<^verbatim>\<open>*tok_ptr\<close>,
  \<^verbatim>\<open>*offset\<close> and state.\<close>

definition set_tok ::
  "string option \<Rightarrow> int \<Rightarrow> nat \<Rightarrow> nat \<Rightarrow> pstate
     \<Rightarrow> fault + (int \<times> string option \<times> nat \<times> pstate)" where
  "set_tok tok mode i offset st =
     (if \<not> i + offset < 512 then Inl OutOfBounds
      else
        let st1 = st\<lparr>tokens := (tokens st)(i + offset := tok)\<rparr>;
            offset1 = offset + 1;
            (t1, st2) = next_tok st1
        in
        if t1 = None then
          Inr (- 1, t1, offset1,
               if mode = 0 then
                 st2\<lparr>perr := perr st2 @ write_lit (''syntax error: no input file'' @ [NL]) 28\<rparr>
               else if mode = 1 \<or> mode = 2 then
                 st2\<lparr>perr := perr st2 @ write_lit (''syntax error: no output file'' @ [NL]) 29\<rparr>
               else st2)
        else if id_rd_tok t1 \<ge> 0 then
          Inr (- 1, t1, offset1,
               st2\<lparr>perr := perr st2 @
                 write_lit (''syntax error: input file is a redirection symbol'' @ [NL]) 49\<rparr>)
        else if mode = 0 \<and> redir st2 0 \<noteq> 0 then
          Inr (- 1, t1, offset1,
               st2\<lparr>perr := perr st2 @
                 write_lit (''syntax error: multiple input files'' @ [NL]) 35\<rparr>)
        else if (mode = 1 \<or> mode = 2) \<and> redir st2 1 + redir st2 2 \<noteq> 0 then
          Inr (- 1, t1, offset1,
               st2\<lparr>perr := perr st2 @
                 write_lit (''syntax error: multiple output files'' @ [NL]) 36\<rparr>)
        else if \<not> i + offset1 < 512 then Inl OutOfBounds
        else if \<not> (0 \<le> mode \<and> mode < 4) then Inl OutOfBounds
        else
          let st3 = st2\<lparr>tokens := (tokens st2)(i + offset1 := t1)\<rparr>;
              st4 = st3\<lparr>redir := (redir st3)(nat mode := int (i + offset1))\<rparr>;
              offset2 = offset1 + 1;
              (t2, st5) = next_tok st4
          in
          if t2 = None \<and> i = 0 then
            Inr (- 1, t2, offset2,
                 st5\<lparr>perr := perr st5 @
                   write_lit (''error: redirects with no command'' @ [NL]) 33\<rparr>)
          else Inr (0, t2, offset2, st5))"

text \<open>\<open>handle_redir\<close> returns \<^verbatim>\<open>(char *)1\<close> on a redirection error and the next
  token that is no redirection (possibly \<^verbatim>\<open>NULL\<close>) otherwise.\<close>

datatype tokres = RedirErr | Tok "string option"

function handle_redir ::
  "string option \<Rightarrow> nat \<Rightarrow> nat \<Rightarrow> pstate \<Rightarrow> fault + (tokres \<times> nat \<times> pstate)" where
  "handle_redir tok i offset st =
     (let mode = id_rd_tok tok in
      if mode \<ge> 0 then
        (case set_tok tok mode i offset st of
           Inl f \<Rightarrow> Inl f
         | Inr (r, tok', offset', st') \<Rightarrow>
             if r < 0 then Inr (RedirErr, offset', st')
             else handle_redir tok' i offset' st')
      else Inr (Tok tok, offset, st))"
  by pat_completeness auto
datatype loopres = LoopErr pstate | LoopEnd nat pstate

text \<open>The \<^verbatim>\<open>for\<close> loop of \<open>parse\<close> over the remaining arguments; \<open>LoopErr\<close> is its
  \<^verbatim>\<open>return -1\<close>, \<open>LoopEnd i\<close> the exit of the loop with the final value of \<open>i\<close>.\<close>

function parse_loop ::
  "nat \<Rightarrow> string option \<Rightarrow> nat \<Rightarrow> pstate \<Rightarrow> fault + loopres" where
  "parse_loop i curr_tok offset st =
     (if i < 512 \<and> curr_tok \<noteq> None then
        (let (t, st1) = next_tok st in
         case handle_redir t i offset st1 of
           Inl f \<Rightarrow> Inl f
         | Inr (RedirErr, offset', st2) \<Rightarrow> Inr (LoopErr st2)
         | Inr (Tok t', offset', st2) \<Rightarrow>
             if \<not> i + offset' < 512 then Inl OutOfBounds
             else
               parse_loop (i + 1) t' offset'
                 (st2\<lparr>tokens := (tokens st2)(i + offset' := t'),
                       argv := (argv st2)(i := t')\<rparr>))
      else Inr (LoopEnd i st))"
  by pat_completeness auto
text \<open>\<open>parse\<close> returns its \<^verbatim>\<open>int\<close> result and the arrays as it left them. The last
  statement of the source is \<^verbatim>\<open>if (strncmp(argv[i - 2], "&", 2)) { redir[3] == 1; }\<close>:
  its body is a comparison whose value is discarded.\<close>

definition parse :: "string \<Rightarrow> pstate \<Rightarrow> fault + (int \<times> pstate)" where
  "parse buffer st0 =
     (let (t0, st) = next_tok (st0\<lparr>save := buffer\<rparr>) in
      case handle_redir t0 0 0 st of
        Inl f \<Rightarrow> Inl f
      | Inr (RedirErr, offset, st1) \<Rightarrow> Inr (- 1, st1)
      | Inr (Tok None, offset, st1) \<Rightarrow> Inr (- 1, st1)
      | Inr (Tok (Some curr_tok), offset, st1) \<Rightarrow>
          if \<not> offset < 512 then Inl OutOfBounds
          else
            let st2 = st1\<lparr>tokens := (tokens st1)(offset := Some curr_tok),
                          argv := (argv st1)(0 := Some curr_tok)\<rparr>;
                st3 = (if take 1 curr_tok = ''/''
                       then st2\<lparr>argv := (argv st2)(0 := strrchr curr_tok (CHR ''/''))\<rparr>
                       else st2)
            in
            (case parse_loop 1 (Some curr_tok) offset st3 of
               Inl f \<Rightarrow> Inl f
             | Inr (LoopErr st4) \<Rightarrow> Inr (- 1, st4)
             | Inr (LoopEnd i st4) \<Rightarrow>
                 if i < 2 then Inl OutOfBounds
                 else
                   (case argv st4 (i - 2) of
                      None \<Rightarrow> Inl NullDeref
                    | Some last_arg \<Rightarrow>
                        let st5 = (if \<not> strncmp_eq last_arg ''&'' 2
                                   then (let unused = (redir st4 3 = 1) in st4)
                                   else st4)
                        in Inr (int i - 1, st5))))"

text \<open>The buffers as \<open>main\<close> sets them up before each call of \<open>parse\<close>:
  \<^verbatim>\<open>memset\<close> to zero and \<^verbatim>\<open>int redir[4] = {0, 0, 0, 0}\<close>.\<close>

definition main_bufs :: pstate where
  "main_bufs = \<lparr>tokens = (\<lambda>k. None), argv = (\<lambda>k. None), redir = (\<lambda>k. 0),
                save = [], perr = []\<rparr>"

text \<open>For the proofs about \<open>parse\<close>: \<open>ntok s\<close> is the number of tokens that successive
  calls of \<^verbatim>\<open>strtok\<close> find in \<open>s\<close>, and \<open>room k tok st n\<close> says that with the token
  \<open>tok\<close> in hand, to be stored at index \<open>k\<close>, and the rest of the line still to be
  split, no more than \<open>n\<close> entries are needed in all.\<close>

function ntok :: "string \<Rightarrow> nat" where
  "ntok s = (case strtok s of (None, r) \<Rightarrow> 0 | (Some t, r) \<Rightarrow> Suc (ntok r))"
  by pat_completeness auto
definition room :: "nat \<Rightarrow> string option \<Rightarrow> pstate \<Rightarrow> nat \<Rightarrow> bool" where
  "room k tok st n = (k + (if tok = None then 0 else 1) + ntok (save st) \<le> n)"

section \<open>The job list (jobs.h)\<close>

text \<open>
  \<open>sh.c\<close> keeps its jobs in a \<^verbatim>\<open>job_list_t\<close> and reaches it only through the functions
  declared in \<^verbatim>\<open>jobs.h\<close>. The list is kept in insertion order, oldest job first.
\<close>

type_synonym pid_t = int

datatype process_state_t = RUNNING | STOPPED

record job =
  jid :: int
  pid :: pid_t
  state :: process_state_t
  command :: "string option"

text \<open>Modelled from the spec: \<^verbatim>\<open>init_job_list\<close> of jobs.c, which is not among the
  sources; the registry starts empty.\<close>

definition init_job_list :: "job list" where
  "init_job_list = []"

text \<open>Modelled from the spec: \<^verbatim>\<open>add_job\<close> of jobs.c, which is not among the sources;
  "inserts a new entry" and "always succeeds", the listing being in insertion order.\<close>

definition add_job ::
  "job list \<Rightarrow> int \<Rightarrow> pid_t \<Rightarrow> process_state_t \<Rightarrow> string option \<Rightarrow> job list" where
  "add_job js j p st cmd = js @ [\<lparr>jid = j, pid = p, state = st, command = cmd\<rparr>]"

text \<open>Modelled from the spec: \<^verbatim>\<open>remove_job_pid\<close> of jobs.c, which is not among the
  sources; "deletes the entry for that process group if present".\<close>

fun remove_job_pid :: "job list \<Rightarrow> pid_t \<Rightarrow> job list" where
  "remove_job_pid [] p = []"
| "remove_job_pid (j # js) p = (if pid j = p then js else j # remove_job_pid js p)"

text \<open>Modelled from the spec: \<^verbatim>\<open>update_job_pid\<close> of jobs.c, which is not among the
  sources; sets the state of the entry of that process group, a "no-op if the pgid is
  not registered".\<close>

fun update_job_pid :: "job list \<Rightarrow> pid_t \<Rightarrow> process_state_t \<Rightarrow> job list" where
  "update_job_pid [] p st = []"
| "update_job_pid (j # js) p st =
     (if pid j = p then j\<lparr>state := st\<rparr> # js else j # update_job_pid js p st)"

text \<open>Modelled from the spec: \<^verbatim>\<open>get_job_jid\<close> of jobs.c, which is not among the
  sources; the job id of a process group, and \<open>-1\<close> for the spec's "none" (the callers
  in sh.c test the results of the lookups with \<^verbatim>\<open>< 0\<close>).\<close>

definition get_job_jid :: "job list \<Rightarrow> pid_t \<Rightarrow> int" where
  "get_job_jid js p = (case find (\<lambda>j. pid j = p) js of None \<Rightarrow> - 1 | Some j \<Rightarrow> jid j)"

text \<open>Modelled from the spec: \<^verbatim>\<open>get_job_pid\<close> of jobs.c, which is not among the
  sources; the process group of a job id, and \<open>-1\<close> for the spec's "none".\<close>

definition get_job_pid :: "job list \<Rightarrow> int \<Rightarrow> pid_t" where
  "get_job_pid js i = (case find (\<lambda>j. jid j = i) js of None \<Rightarrow> - 1 | Some j \<Rightarrow> pid j)"

text \<open>Modelled from the spec: \<^verbatim>\<open>cleanup_job_list\<close> of jobs.c, which is not among the
  sources; "drops all entries".\<close>

definition cleanup_job_list :: "job list \<Rightarrow> job list" where
  "cleanup_job_list js = []"

section \<open>Formatted output\<close>

text \<open>\<^verbatim>\<open>%d\<close> of \<^verbatim>\<open>snprintf\<close>: the decimal digits of an \<^verbatim>\<open>int\<close>.\<close>

fun digits :: "nat \<Rightarrow> string" where
  "digits n =
     (if n < 10 then [''0123456789'' ! n]
      else digits (n div 10) @ [''0123456789'' ! (n mod 10)])"

declare digits.simps [simp del]

definition show_int :: "int \<Rightarrow> string" where
  "show_int i = (if i < 0 then CHR ''-'' # digits (nat (- i)) else digits (nat i))"

text \<open>\<^verbatim>\<open>snprintf(buf, n, ...)\<close> keeps at most \<open>n - 1\<close> characters of the formatted text.\<close>

definition snprintf :: "nat \<Rightarrow> string \<Rightarrow> string" where
  "snprintf n str = take (n - 1) str"

text \<open>Modelled from the spec: \<^verbatim>\<open>jobs\<close> of jobs.c, which is not among the sources; it
  "prints every registered job as \<^verbatim>\<open>[<job_id>] (<pgid>) <state-word>\<close> in registry
  order".\<close>

definition jobs_line :: "job \<Rightarrow> string" where
  "jobs_line j =
     ''['' @ show_int (jid j) @ ''] ('' @ show_int (pid j) @ '') '' @
     (case state j of RUNNING \<Rightarrow> ''Running'' | STOPPED \<Rightarrow> ''Stopped'') @ [NL]"

definition jobs :: "job list \<Rightarrow> string" where
  "jobs js = concat (map jobs_line js)"

text \<open>\<^verbatim>\<open>atoi\<close>: optional white space and sign, then the leading decimal digits; \<open>0\<close>
  when there are none. The C library computes \<^verbatim>\<open>(int) strtol(s, NULL, 10)\<close>:
  \<^verbatim>\<open>strtol\<close> clamps the value to the 64 bits of a \<^verbatim>\<open>long\<close>, and the conversion keeps
  the low 32 bits. (A value outside \<^verbatim>\<open>int\<close> is undefined behaviour in C; what the
  machine does is written out.)\<close>

definition isspace :: "char \<Rightarrow> bool" where
  "isspace c = (c \<in> set [CHR 0x20, CHR 0x09, CHR 0x0A, CHR 0x0B, CHR 0x0C, CHR 0x0D])"

definition isdigit :: "char \<Rightarrow> bool" where
  "isdigit c = (c \<in> set ''0123456789'')"

fun atoi_digits :: "string \<Rightarrow> int \<Rightarrow> int" where
  "atoi_digits [] n = n"
| "atoi_digits (c # cs) n =
     (if isdigit c then atoi_digits cs (10 * n + (int (of_char c) - 48)) else n)"

definition strtol :: "string \<Rightarrow> int" where
  "strtol s =
     (let v = (case dropWhile isspace s of
                 [] \<Rightarrow> 0
               | c # cs \<Rightarrow>
                   if c = CHR ''-'' then - atoi_digits cs 0
                   else if c = CHR ''+'' then atoi_digits cs 0
                   else atoi_digits (c # cs) 0)
      in
      if v > 9223372036854775807 then 9223372036854775807
      else if v < - 9223372036854775808 then - 9223372036854775808
      else v)"

definition atoi :: "string \<Rightarrow> int" where
  "atoi s = (strtol s + 2147483648) mod 4294967296 - 2147483648"

section \<open>The shell process and the operating system\<close>

text \<open>
  The child status that \<^verbatim>\<open>waitpid\<close> stores and the macros \<^verbatim>\<open>WIFSIGNALED\<close>,
  \<^verbatim>\<open>WIFSTOPPED\<close>, \<^verbatim>\<open>WIFCONTINUED\<close>, \<^verbatim>\<open>WIFEXITED\<close> take apart (with \<^verbatim>\<open>WTERMSIG\<close>,
  \<^verbatim>\<open>WSTOPSIG\<close>, \<^verbatim>\<open>WEXITSTATUS\<close>) is one of four cases.
\<close>

datatype wstatus = Exited int | Signaled int | Stopped int | Continued

datatype signal = SIGINT | SIGTSTP | SIGTTOU | SIGCONT

datatype sighandler = SIG_DFL | SIG_IGN

datatype wopt = WNOHANG | WUNTRACED | WCONTINUED

text \<open>The system calls that act on other processes, the terminal, the signal
  dispositions or the file system, and the blocking wait.\<close>

datatype oflag = O_RDONLY | O_WRONLY | O_TRUNC | O_CREAT | O_APPEND

datatype syscall =
    Kill pid_t signal
  | Tcsetpgrp int pid_t
  | Waitpid pid_t "wopt list"
  | Fork
  | Getpid
  | Getpgrp
  | Setpgid pid_t pid_t
  | Setsignal signal sighandler
  | Chdir "string option"
  | Link "string option" "string option"
  | Unlink "string option"
  | Close int
  | Open "string option" "oflag list" nat
  | Execv "string option" "string list"

text \<open>
  The state of the shell process: the globals \<open>my_jobs\<close> and \<open>next_job\<close> of sh.c, the
  bytes written so far to standard output and standard error, the system calls issued
  so far, and the child status changes that the kernel holds for
  \<^verbatim>\<open>waitpid(-1, ..., WNOHANG | WUNTRACED | WCONTINUED)\<close>.
\<close>

record shell =
  my_jobs :: "job list"
  next_job :: int
  out :: string
  err :: string
  calls :: "syscall list"
  pending :: "(pid_t \<times> wstatus) list"

text \<open>The answers of the operating system to the calls whose result the code tests:
  the values returned, the status a blocking \<^verbatim>\<open>waitpid\<close> stores, the bytes \<^verbatim>\<open>read\<close>
  delivers, and the message \<^verbatim>\<open>perror\<close> prints for \<^verbatim>\<open>errno\<close>. An environment holds one
  answer for each kind of call; a session gives every step an environment of its own.\<close>

record os =
  write_ret :: int
  sys_ret :: int
  fork_ret :: int
  wait_ret :: int
  wait_status :: wstatus
  getpid_ret :: int
  getpgrp_ret :: int
  setpgid_ret :: int
  tcsetpgrp_ret :: int
  signal_err :: bool
  close_ret :: int
  open_ret :: int
  execv_fails :: bool
  read_ret :: int
  read_data :: string
  strerror :: string

text \<open>A call either returns to its caller, or ends the process through \<^verbatim>\<open>exit\<close>, or
  replaces the process image through \<^verbatim>\<open>execv\<close>, or reads or writes through \<^verbatim>\<open>NULL\<close> or
  outside an array (\<open>Crash\<close>: undefined behaviour in C).\<close>

datatype 'a outcome = Crash | Exit int shell | Execd shell | Return 'a shell

definition and_then :: "'a outcome \<Rightarrow> ('a \<Rightarrow> shell \<Rightarrow> 'b outcome) \<Rightarrow> 'b outcome" where
  "and_then m f =
     (case m of
        Crash \<Rightarrow> Crash
      | Exit c s \<Rightarrow> Exit c s
      | Execd s \<Rightarrow> Execd s
      | Return r s \<Rightarrow> f r s)"

definition INT_MAX :: int where
  "INT_MAX = 2147483647"

text \<open>\<^verbatim>\<open>next_job++\<close> on a 32-bit \<^verbatim>\<open>int\<close>. Overflow is undefined behaviour in C; the
  wrap-around of the machine is written out.\<close>

definition int_incr :: "int \<Rightarrow> int" where
  "int_incr x = (if x = INT_MAX then - INT_MAX - 1 else x + 1)"

definition perror :: "os \<Rightarrow> string \<Rightarrow> shell \<Rightarrow> shell" where
  "perror env name s = s\<lparr>err := err s @ name @ '': '' @ strerror env @ [NL]\<rparr>"

definition cleanup :: "shell \<Rightarrow> shell" where
  "cleanup s = s\<lparr>my_jobs := cleanup_job_list (my_jobs s)\<rparr>"

section \<open>lib\_checks.c\<close>

definition checked_stdwrite :: "os \<Rightarrow> string \<Rightarrow> shell \<Rightarrow> unit outcome" where
  "checked_stdwrite env str s =
     (let len = min (length str) 1024 in
      if write_ret env < 0 then Exit 1 (cleanup (perror env ''write:'' s))
      else Return () (s\<lparr>out := out s @ take len str\<rparr>))"

definition checked_close :: "os \<Rightarrow> int \<Rightarrow> shell \<Rightarrow> unit outcome" where
  "checked_close env fd s =
     (let s1 = s\<lparr>calls := calls s @ [Close fd]\<rparr> in
      if close_ret env < 0 then Exit 1 (cleanup (perror env ''close'' s1))
      else Return () s1)"

definition checked_open ::
  "os \<Rightarrow> string option \<Rightarrow> oflag list \<Rightarrow> nat \<Rightarrow> shell \<Rightarrow> unit outcome" where
  "checked_open env pathname flags mode s =
     (let s1 = s\<lparr>calls := calls s @ [Open pathname flags mode]\<rparr> in
      if open_ret env < 0 then Exit 1 (cleanup (perror env ''open'' s1))
      else Return () s1)"

definition checked_signal :: "os \<Rightarrow> signal \<Rightarrow> sighandler \<Rightarrow> shell \<Rightarrow> unit outcome" where
  "checked_signal env signum handler s =
     (let s1 = s\<lparr>calls := calls s @ [Setsignal signum handler]\<rparr> in
      if signal_err env then Exit 1 (cleanup (perror env ''signal'' s1))
      else Return () s1)"

definition checked_setpgrp :: "os \<Rightarrow> pid_t \<Rightarrow> shell \<Rightarrow> unit outcome" where
  "checked_setpgrp env pgrp s =
     (let s1 = s\<lparr>calls := calls s @ [Tcsetpgrp 0 pgrp]\<rparr> in
      if tcsetpgrp_ret env < 0 then Exit 1 (cleanup (perror env ''tcsetgrp'' s1))
      else Return () s1)"

text \<open>\<open>checked_waitpid\<close> returns the result of \<^verbatim>\<open>waitpid\<close>; the status it stores is
  \<open>wait_status\<close> of the environment.\<close>

definition checked_waitpid :: "os \<Rightarrow> pid_t \<Rightarrow> wopt list \<Rightarrow> shell \<Rightarrow> int outcome" where
  "checked_waitpid env p options s =
     (let s1 = s\<lparr>calls := calls s @ [Waitpid p options]\<rparr>;
          ret = wait_ret env
      in
      if ret < 0 then Exit 1 (cleanup (perror env ''wait'' s1))
      else Return ret s1)"

section \<open>sh.c\<close>

definition init_shell :: shell where
  "init_shell = \<lparr>my_jobs = init_job_list, next_job = 1, out = [], err = [], calls = [],
                  pending = []\<rparr>"

text \<open>In \<open>handle_signals\<close> the job is looked up with \<^verbatim>\<open>get_job_pid(my_jobs, pgid)\<close>, as
  the source has it.\<close>

definition handle_signals ::
  "os \<Rightarrow> wstatus \<Rightarrow> pid_t \<Rightarrow> string option \<Rightarrow> shell \<Rightarrow> unit outcome" where
  "handle_signals env status pgid cmd s =
     (let job = get_job_pid (my_jobs s) pgid;
          (sig, act, job1, s1) =
            (case status of
               Signaled n \<Rightarrow>
                 (n, ''terminated by signal'', (if job < 0 then next_job s else job), s)
             | Stopped n \<Rightarrow>
                 if job < 0 then
                   (n, ''suspended by signal'', next_job s,
                    s\<lparr>my_jobs := add_job (my_jobs s) (next_job s) pgid STOPPED cmd,
                      next_job := int_incr (next_job s)\<rparr>)
                 else (n, ''suspended by signal'', job, s)
             | _ \<Rightarrow> (0, [], job, s))
      in
      if sig \<noteq> 0 then
        checked_stdwrite env
          (snprintf 64
             (''['' @ show_int job1 @ ''] ('' @ show_int pgid @ '') '' @ act @ '' '' @
              show_int sig @ [NL]))
          s1
      else Return () s1)"

definition reap :: "os \<Rightarrow> wstatus \<Rightarrow> pid_t \<Rightarrow> shell \<Rightarrow> unit outcome" where
  "reap env status pgid s =
     (let job = get_job_jid (my_jobs s) pgid;
          (code, act, s1) =
            (case status of
               Signaled n \<Rightarrow>
                 (n, snprintf 32 (''terminated by signal '' @ show_int n),
                  s\<lparr>my_jobs := remove_job_pid (my_jobs s) pgid\<rparr>)
             | Stopped n \<Rightarrow>
                 (n, snprintf 32 (''suspended by signal '' @ show_int n),
                  s\<lparr>my_jobs := update_job_pid (my_jobs s) pgid STOPPED\<rparr>)
             | Continued \<Rightarrow>
                 (1, snprintf 16 ''resumed'',
                  s\<lparr>my_jobs := update_job_pid (my_jobs s) pgid RUNNING\<rparr>)
             | Exited n \<Rightarrow>
                 (1, snprintf 64 (''terminated with exit status '' @ show_int n),
                  s\<lparr>my_jobs := remove_job_pid (my_jobs s) pgid\<rparr>))
      in
      if code \<noteq> 0 then
        checked_stdwrite env
          (snprintf 128 (''['' @ show_int job @ ''] ('' @ show_int pgid @ '') '' @ act @ [NL]))
          s1
      else Return () s1)"

definition change_def_handlers :: "os \<Rightarrow> sighandler \<Rightarrow> shell \<Rightarrow> unit outcome" where
  "change_def_handlers env handler s =
     and_then (checked_signal env SIGINT handler s) (\<lambda>u s1.
     and_then (checked_signal env SIGTSTP handler s1) (\<lambda>u s2.
     checked_signal env SIGTTOU handler s2))"

text \<open>\<open>exec_builtins\<close> returns \<open>0\<close> when the command was a builtin and \<open>-1\<close> when it
  was not.\<close>

definition exec_builtins :: "os \<Rightarrow> (nat \<Rightarrow> string option) \<Rightarrow> int \<Rightarrow> shell \<Rightarrow> int outcome" where
  "exec_builtins env argv' argc s =
     (case argv' 0 of
        None \<Rightarrow> Crash
      | Some cmd \<Rightarrow>
          if strncmp_eq cmd ''exit'' 5 then
            (if argc \<noteq> 1 then
               Return 0 (s\<lparr>err := err s @ write_lit (''exit: syntax error'' @ [NL]) 20\<rparr>)
             else Exit 0 (cleanup s))
          else if strncmp_eq cmd ''cd'' 3 then
            (if argc \<noteq> 2 then
               Return 0 (s\<lparr>err := err s @ write_lit (''cd: syntax error'' @ [NL]) 17\<rparr>)
             else
               let s1 = s\<lparr>calls := calls s @ [Chdir (argv' 1)]\<rparr> in
               if sys_ret env < 0 then Return 0 (perror env ''cd'' s1) else Return 0 s1)
          else if strncmp_eq cmd ''ln'' 3 then
            (let s1 = (if argc \<noteq> 3
                       then s\<lparr>err := err s @ write_lit (''ln: syntax error'' @ [NL]) 17\<rparr>
                       else s);
                 s2 = s1\<lparr>calls := calls s1 @ [Link (argv' 1) (argv' 2)]\<rparr>
             in
             if sys_ret env < 0 then Return 0 (perror env ''ln'' s2) else Return 0 s2)
          else if strncmp_eq cmd ''rm'' 3 then
            (if argc \<noteq> 2 then
               Return 0 (s\<lparr>err := err s @ write_lit (''rm: syntax error'' @ [NL]) 17\<rparr>)
             else
               let s1 = s\<lparr>calls := calls s @ [Unlink (argv' 1)]\<rparr> in
               if sys_ret env < 0 then Return 0 (perror env ''rm'' s1) else Return 0 s1)
          else if strncmp_eq cmd ''jobs'' 5 then
            (if argc \<noteq> 1 then
               Return 0 (s\<lparr>err := err s @ write_lit (''jobs: syntax error'' @ [NL]) 20\<rparr>)
             else Return 0 (s\<lparr>out := out s @ jobs (my_jobs s)\<rparr>))
          else if strncmp_eq cmd ''fg'' 3 then
            (if argc \<noteq> 2 then
               Return 0 (s\<lparr>err := err s @ write_lit (''fg: syntax error'' @ [NL]) 18\<rparr>)
             else
               (case argv' 1 of
                  None \<Rightarrow> Crash
                | Some arg1 \<Rightarrow>
                    if take 1 arg1 \<noteq> ''%'' then
                      Return 0
                        (s\<lparr>err := err s @
                           write_lit (''fg: job input does not begin with %'' @ [NL]) 37\<rparr>)
                    else
                      let jid_str = drop 1 arg1;
                          job_id = atoi jid_str;
                          p = get_job_pid (my_jobs s) job_id
                      in
                      if p < 0 then
                        Return 0 (s\<lparr>err := err s @ write_lit (''job not found'' @ [NL]) 15\<rparr>)
                      else
                        let s1 = s\<lparr>calls := calls s @ [Kill p SIGCONT]\<rparr>;
                            s2 = s1\<lparr>my_jobs := update_job_pid (my_jobs s1) p RUNNING\<rparr>
                        in
                        and_then (checked_waitpid env p [WUNTRACED] s2) (\<lambda>ret s3.
                        and_then (handle_signals env (wait_status env) p None s3) (\<lambda>u s4.
                        Return 0 s4))))
          else if strncmp_eq cmd ''bg'' 3 then
            (if argc \<noteq> 2 then
               Return 0 (s\<lparr>err := err s @ write_lit (''bg: syntax error'' @ [NL]) 18\<rparr>)
             else
               (case argv' 1 of
                  None \<Rightarrow> Crash
                | Some arg1 \<Rightarrow>
                    if take 1 arg1 \<noteq> ''%'' then
                      Return 0
                        (s\<lparr>err := err s @
                           write_lit (''bg: job input does not begin with %'' @ [NL]) 37\<rparr>)
                    else
                      let jid_str = drop 1 arg1;
                          job_id = atoi jid_str;
                          p = get_job_pid (my_jobs s) job_id
                      in
                      if p < 0 then
                        Return 0 (s\<lparr>err := err s @ write_lit (''job not found'' @ [NL]) 15\<rparr>)
                      else
                        let s1 = s\<lparr>calls := calls s @ [Kill p SIGCONT]\<rparr>;
                            s2 = s1\<lparr>my_jobs := update_job_pid (my_jobs s1) p RUNNING\<rparr>
                        in Return 0 s2))
          else Return (- 1) s)"

text \<open>
  \<open>run_prog\<close>. In the shell \<^verbatim>\<open>fork\<close> returns the process id of the child (or \<open>-1\<close>,
  which the source does not test); in the child it returns \<open>0\<close>, and the child, which
  starts as a copy of the shell, ends in \<^verbatim>\<open>execv\<close> or \<^verbatim>\<open>exit(1)\<close>. \<open>c_args\<close> is the
  argument vector \<^verbatim>\<open>execv\<close> reads, up to the first \<^verbatim>\<open>NULL\<close>.
\<close>

definition f_index_of :: "(nat \<Rightarrow> int) \<Rightarrow> int" where
  "f_index_of redir' =
     fold (\<lambda>i f_index. if redir' i = 1 \<or> (f_index = 1 \<and> redir' i = 3) then f_index + 2
                        else f_index)
       [0, 1, 2] 0"

definition c_args :: "(nat \<Rightarrow> string option) \<Rightarrow> string list" where
  "c_args argv' = map the (takeWhile (\<lambda>a. a \<noteq> None) (map argv' [0..<512]))"

definition run_prog_child ::
  "os \<Rightarrow> (nat \<Rightarrow> string option) \<Rightarrow> (nat \<Rightarrow> string option) \<Rightarrow> (nat \<Rightarrow> int) \<Rightarrow> int \<Rightarrow> int
     \<Rightarrow> shell \<Rightarrow> int outcome" where
  "run_prog_child env argv' tokens' redir' bg f_index s =
     (let p = getpid_ret env;
          s1 = s\<lparr>calls := calls s @ [Getpid]\<rparr>
      in
      if p < 0 then Exit 1 (perror env ''getpid'' s1)
      else
        let s2 = s1\<lparr>calls := calls s1 @ [Setpgid p p]\<rparr> in
        if setpgid_ret env < 0 then Exit 1 (perror env ''setpgid'' s2)
        else
          and_then (if bg = 0 then checked_setpgrp env p s2 else Return () s2) (\<lambda>u s3.
          and_then (change_def_handlers env SIG_DFL s3) (\<lambda>u s4.
          and_then
            (if redir' 0 \<noteq> 0 then
               and_then (checked_close env 0 s4) (\<lambda>u s'.
                 if 0 \<le> redir' 0 \<and> redir' 0 < 512
                 then checked_open env (tokens' (nat (redir' 0))) [O_RDONLY] 0 s'
                 else Crash)
             else Return () s4) (\<lambda>u s5.
          and_then
            (if redir' 1 \<noteq> 0 then
               and_then (checked_close env 1 s5) (\<lambda>u s'.
                 if 0 \<le> redir' 1 \<and> redir' 1 < 512
                 then checked_open env (tokens' (nat (redir' 1)))
                        [O_WRONLY, O_TRUNC, O_CREAT] 384 s'
                 else Crash)
             else if redir' 2 \<noteq> 0 then
               and_then (checked_close env 1 s5) (\<lambda>u s'.
                 if 0 \<le> redir' 2 \<and> redir' 2 < 512
                 then checked_open env (tokens' (nat (redir' 2)))
                        [O_WRONLY, O_APPEND, O_CREAT] 384 s'
                 else Crash)
             else Return () s5) (\<lambda>u s6.
          (case argv' 0 of
             None \<Rightarrow> Crash
           | Some arg0 \<Rightarrow>
               let argv2 = (if strncmp_eq arg0 ''/'' 1 then argv'(0 := Some (drop 1 arg0))
                            else argv');
                   s7 = s6\<lparr>calls := calls s6 @ [Execv (tokens' (nat f_index)) (c_args argv2)]\<rparr>
               in
               if execv_fails env then Exit 1 (perror env ''execv'' s7)
               else Execd s7))))))"

definition run_prog ::
  "os \<Rightarrow> (nat \<Rightarrow> string option) \<Rightarrow> (nat \<Rightarrow> string option) \<Rightarrow> (nat \<Rightarrow> int) \<Rightarrow> shell
     \<Rightarrow> int outcome" where
  "run_prog env argv' tokens' redir' s =
     (let bg = redir' 3;
          f_index = f_index_of redir';
          p = fork_ret env;
          s0 = s\<lparr>calls := calls s @ [Fork]\<rparr>
      in
      if p = 0 then run_prog_child env argv' tokens' redir' bg f_index s0
      else
        and_then
          (if bg \<noteq> 0 then
             (let s1 = s0\<lparr>my_jobs :=
                            add_job (my_jobs s0) (next_job s0) p RUNNING (tokens' (nat f_index))\<rparr>;
                  s2 = s1\<lparr>next_job := int_incr (next_job s1)\<rparr>;
                  job = get_job_jid (my_jobs s2) p
              in
              checked_stdwrite env
                (snprintf 32 (''['' @ show_int job @ ''] ('' @ show_int p @ '')'' @ [NL])) s2)
           else
             and_then (checked_waitpid env p [WUNTRACED] s0) (\<lambda>ret s1.
             handle_signals env (wait_status env) p (tokens' (nat f_index)) s1))
          (\<lambda>u s3.
             let old = getpgrp_ret env;
                 s4 = s3\<lparr>calls := calls s3 @ [Getpgrp]\<rparr>
             in
             if old < 0 then Exit 1 (cleanup (perror env ''getpgid'' s4))
             else and_then (checked_setpgrp env old s4) (\<lambda>u s5. Return 0 s5)))"

text \<open>The loop of \<open>main\<close> that reaps:
  \<^verbatim>\<open>while ((pid = waitpid(-1, &status, WNOHANG | WUNTRACED | WCONTINUED)) > 0) reap(status, pid);\<close>
  The call takes the oldest pending status change and returns its process id, and
  returns \<open>0\<close> when none is pending; the kernel reports children, whose process ids
  are positive.\<close>

function main_reap_loop :: "os \<Rightarrow> shell \<Rightarrow> unit outcome" where
  "main_reap_loop env s =
     (case pending s of
        [] \<Rightarrow> Return () s
      | (p, status) # rest \<Rightarrow>
          if p > 0 then
            (case reap env status p (s\<lparr>pending := rest\<rparr>) of
               Crash \<Rightarrow> Crash
             | Exit c s1 \<Rightarrow> Exit c s1
             | Execd s1 \<Rightarrow> Execd s1
             | Return u s1 \<Rightarrow> main_reap_loop env s1)
          else Return () (s\<lparr>pending := rest\<rparr>))"
  by pat_completeness auto
text \<open>
  The rest of one iteration of the loop of \<open>main\<close>. \<open>main_dispatch\<close> is its end: the
  line is parsed into fresh buffers and handed to \<open>exec_builtins\<close> and, when that
  returns \<open>-1\<close>, to \<open>run_prog\<close>. \<open>main_iter\<close> is the whole iteration; \<open>prompt\<close> says
  whether the shell was compiled with \<^verbatim>\<open>-DPROMPT\<close>, \<open>buf\<close> holds the \<open>rd_state\<close> bytes
  that \<^verbatim>\<open>read\<close> returned in the zeroed buffer of 1024 bytes, and \<^verbatim>\<open>return\<close> from
  \<open>main\<close> ends the process.
\<close>

definition main_dispatch :: "os \<Rightarrow> string \<Rightarrow> shell \<Rightarrow> unit outcome" where
  "main_dispatch env buffer s =
     (case parse buffer main_bufs of
        Inl f \<Rightarrow> Crash
      | Inr (argc, st) \<Rightarrow>
          let s1 = s\<lparr>err := err s @ perr st\<rparr> in
          if argc < 0 then Return () s1
          else
            and_then (exec_builtins env (argv st) argc s1) (\<lambda>r s2.
              if r < 0 then
                and_then (run_prog env (argv st) (tokens st) (redir st) s2) (\<lambda>r' s3.
                  Return () s3)
              else Return () s2))"

definition main_iter :: "bool \<Rightarrow> os \<Rightarrow> shell \<Rightarrow> unit outcome" where
  "main_iter prompt env s =
     and_then (change_def_handlers env SIG_IGN s) (\<lambda>u s1.
     and_then (main_reap_loop env s1) (\<lambda>u s2.
     and_then (if prompt then checked_stdwrite env ''mysh> '' s2 else Return () s2) (\<lambda>u s3.
       let rd_state = read_ret env;
           buf = take (nat rd_state) (read_data env @ replicate 1024 NUL)
       in
       if rd_state < 0 then Exit 1 (cleanup (perror env ''read'' s3))
       else if rd_state = 0 then Exit 0 (cleanup s3)
       else if last buf \<noteq> NL then
         (if rd_state \<ge> 1024 then Crash
          else main_dispatch env (takeWhile (\<lambda>c. c \<noteq> NUL) buf) s3)
       else if rd_state = 1 then Return () s3
       else main_dispatch env (takeWhile (\<lambda>c. c \<noteq> NUL) (butlast buf)) s3)))"

section \<open>Sessions\<close>

text \<open>
  A session of the shell is a sequence of steps, each with the answers of the operating
  system during the step: the kernel queues new child status changes (\<open>Notify\<close>), or the
  shell runs an iteration of \<open>main\<close> (\<open>Iteration\<close>), or one of the three parts of an
  iteration that touch the job list is run on its own with any arguments: the reaping
  loop (\<open>Reaper\<close>), \<open>exec_builtins\<close> (\<open>Builtin\<close>), \<open>run_prog\<close> (\<open>RunProg\<close>).
\<close>

datatype op =
    Notify "(pid_t \<times> wstatus) list"
  | Iteration bool
  | Reaper
  | Builtin "nat \<Rightarrow> string option" int
  | RunProg "nat \<Rightarrow> string option" "nat \<Rightarrow> string option" "nat \<Rightarrow> int"

definition apply_op :: "os \<Rightarrow> op \<Rightarrow> shell \<Rightarrow> unit outcome" where
  "apply_op env c s =
     (case c of
        Notify new \<Rightarrow> Return () (s\<lparr>pending := pending s @ new\<rparr>)
      | Iteration prompt \<Rightarrow> main_iter prompt env s
      | Reaper \<Rightarrow> main_reap_loop env s
      | Builtin argv' argc \<Rightarrow> and_then (exec_builtins env argv' argc s) (\<lambda>r s'. Return () s')
      | RunProg argv' tokens' redir' \<Rightarrow>
          and_then (run_prog env argv' tokens' redir' s) (\<lambda>r s'. Return () s'))"

fun session :: "(os \<times> op) list \<Rightarrow> shell \<Rightarrow> unit outcome" where
  "session [] s = Return () s"
| "session ((env, c) # cs) s =
     (case apply_op env c s of
        Crash \<Rightarrow> Crash
      | Exit n s' \<Rightarrow> Exit n s'
      | Execd s' \<Rightarrow> Execd s'
      | Return u s' \<Rightarrow> session cs s')"



section \<open>Example inputs\<close>

text \<open>An environment in which every call succeeds: the shell is in process group 50,
  \<^verbatim>\<open>fork\<close> returns the child 100, and the child exits with status 0.\<close>

definition os_ok :: os where
  "os_ok = \<lparr>write_ret = 1, sys_ret = 0, fork_ret = 100, wait_ret = 100,
            wait_status = Exited 0, getpid_ret = 100, getpgrp_ret = 50, setpgid_ret = 0,
            tcsetpgrp_ret = 0, signal_err = False, close_ret = 0, open_ret = 3,
            execv_fails = False, read_ret = 0, read_data = [], strerror = ''Bad address''\<rparr>"

text \<open>The same environment with a line typed at the terminal, and with the child
  changing state in another way.\<close>

definition os_line :: "string \<Rightarrow> os" where
  "os_line line = os_ok\<lparr>read_ret := int (length line) + 1, read_data := line @ [NL]\<rparr>"

definition os_line_status :: "string \<Rightarrow> wstatus \<Rightarrow> os" where
  "os_line_status line st = (os_line line)\<lparr>wait_status := st\<rparr>"

definition argv_of :: "string list \<Rightarrow> nat \<Rightarrow> string option" where
  "argv_of ws k = (if k < length ws then Some (ws ! k) else None)"

definition job_sleep :: job where
  "job_sleep = \<lparr>jid = 1, pid = 100, state = RUNNING, command = Some ''/bin/sleep''\<rparr>"

definition job_cat :: job where
  "job_cat = \<lparr>jid = 2, pid = 200, state = RUNNING, command = Some ''/bin/cat''\<rparr>"

definition two_jobs :: shell where
  "two_jobs = \<lparr>my_jobs = [job_sleep, job_cat], next_job = 3, out = [], err = [], calls = [],
                pending = []\<rparr>"









section \<open>Termination of the loops\<close>

text \<open>Every token that \<^verbatim>\<open>strtok\<close> returns shortens the rest of the line, a successful
  \<open>set_tok\<close> takes at least one token, and \<open>reap\<close> takes nothing back into the queue of
  pending status changes.\<close>

lemma strtok_shorter:
  "strtok s = (Some t, r) \<Longrightarrow> length r < length s"
proof -
  assume a: "strtok s = (Some t, r)"
  let ?s1 = "dropWhile delim s"
  from a have ne: "?s1 \<noteq> []" and r: "r = drop 1 (dropWhile (\<lambda>c. \<not> delim c) ?s1)"
    by (auto simp: strtok_def Let_def split: if_splits)
  from ne obtain x xs where x: "?s1 = x # xs"
    by (cases ?s1) auto
  have "\<not> delim x"
    using x hd_dropWhile [of delim s] by auto
  then have "dropWhile (\<lambda>c. \<not> delim c) ?s1 = dropWhile (\<lambda>c. \<not> delim c) xs"
    using x by simp
  then have "length r \<le> length xs"
    using r length_dropWhile_le [of "\<lambda>c. \<not> delim c" xs] by simp
  moreover have "length xs < length ?s1"
    using x by simp
  moreover have "length ?s1 \<le> length s"
    by (rule length_dropWhile_le)
  ultimately show ?thesis by linarith
qed

lemma strtok_not_longer:
  "strtok s = (t, r) \<Longrightarrow> length r \<le> length s"
  using strtok_shorter [of s] by (cases t) (auto simp: strtok_def Let_def split: if_splits)

lemma next_tok_shorter:
  "next_tok st = (Some t, st') \<Longrightarrow> length (save st') < length (save st)"
  by (auto simp: next_tok_def split: prod.splits dest: strtok_shorter)

lemma next_tok_not_longer:
  "next_tok st = (t, st') \<Longrightarrow> length (save st') \<le> length (save st)"
  by (auto simp: next_tok_def split: prod.splits dest: strtok_not_longer)

lemma set_tok_consumes:
  assumes "set_tok tok mode i offset st = Inr (r, t', offset', st')" and "\<not> r < 0"
  shows "length (save st') < length (save st)"
proof -
  obtain t1 st2 where n1: "next_tok (st\<lparr>tokens := (tokens st)(i + offset := tok)\<rparr>) = (t1, st2)"
    by (cases "next_tok (st\<lparr>tokens := (tokens st)(i + offset := tok)\<rparr>)") auto
  obtain t2 st5 where n2:
    "next_tok (st2\<lparr>tokens := (tokens st2)(i + (offset + 1) := t1),
        redir := (redir st2)(nat mode := int (i + (offset + 1)))\<rparr>) = (t2, st5)"
    by (cases "next_tok (st2\<lparr>tokens := (tokens st2)(i + (offset + 1) := t1),
        redir := (redir st2)(nat mode := int (i + (offset + 1)))\<rparr>)") auto
  from assms n1 n2 have t1: "t1 \<noteq> None" and st': "st' = st5"
    by (auto simp: set_tok_def Let_def split: if_splits)
  from t1 n1 have "length (save st2) < length (save st)"
    using next_tok_shorter [of "st\<lparr>tokens := (tokens st)(i + offset := tok)\<rparr>"] by auto
  moreover from n2 have "length (save st5) \<le> length (save st2)"
    using next_tok_not_longer
      [of "st2\<lparr>tokens := (tokens st2)(i + (offset + 1) := t1),
        redir := (redir st2)(nat mode := int (i + (offset + 1)))\<rparr>"] by auto
  ultimately show ?thesis using st' by simp
qed

termination handle_redir
  by (relation "measure (\<lambda>(tok, i, offset, st). length (save st))")
    (auto dest: set_tok_consumes)

declare handle_redir.simps [simp del]

termination parse_loop
  by (relation "measure (\<lambda>(i, curr_tok, offset, st). 512 - i)") auto

declare parse_loop.simps [simp del]

termination ntok
  by (relation "measure length") (auto dest: strtok_shorter [OF sym])

declare ntok.simps [simp del]

lemma checked_stdwrite_pending:
  "checked_stdwrite env str s = Return u s' \<Longrightarrow> pending s' = pending s"
  by (auto simp: checked_stdwrite_def Let_def split: if_splits)

lemma reap_pending:
  "reap env status pgid s = Return u s' \<Longrightarrow> pending s' = pending s"
  by (cases status)
    (auto simp: reap_def Let_def split: if_splits dest!: checked_stdwrite_pending)

termination main_reap_loop
  by (relation "measure (\<lambda>(env, s). length (pending s))")
    (auto dest!: reap_pending)

declare main_reap_loop.simps [simp del]

section \<open>Parsing: the background flag\<close>

text \<open>No store of \<open>parse\<close> reaches \<open>redir[3]\<close>.\<close>

lemma next_tok_redir: "next_tok st = (t, st') \<Longrightarrow> redir st' = redir st"
  by (auto simp: next_tok_def split: prod.splits)

lemma id_rd_tok_range: "id_rd_tok tok \<in> {- 1, 0, 1, 2}"
  by (simp add: id_rd_tok_def split: option.splits)

lemma set_tok_redir3:
  assumes "set_tok tok mode i offset st = Inr (r, t', offset', st')" and "mode \<noteq> 3"
  shows "redir st' 3 = redir st 3"
proof -
  obtain t1 st2 where n1: "next_tok (st\<lparr>tokens := (tokens st)(i + offset := tok)\<rparr>) = (t1, st2)"
    by (cases "next_tok (st\<lparr>tokens := (tokens st)(i + offset := tok)\<rparr>)") auto
  obtain t2 st5 where n2:
    "next_tok (st2\<lparr>tokens := (tokens st2)(i + (offset + 1) := t1),
        redir := (redir st2)(nat mode := int (i + (offset + 1)))\<rparr>) = (t2, st5)"
    by (cases "next_tok (st2\<lparr>tokens := (tokens st2)(i + (offset + 1) := t1),
        redir := (redir st2)(nat mode := int (i + (offset + 1)))\<rparr>)") auto
  have r2: "redir st2 = redir st"
    using next_tok_redir [OF n1] by simp
  have r5: "redir st5 = (redir st2)(nat mode := int (i + (offset + 1)))"
    using next_tok_redir [OF n2] by simp
  have m: "0 \<le> mode \<Longrightarrow> nat mode \<noteq> 3"
    using assms(2) by auto
  show ?thesis
    using assms(1) n1 n2 r2 r5 m
    by (auto simp: set_tok_def Let_def split: if_splits)
qed

lemma handle_redir_redir3:
  "handle_redir tok i offset st = Inr (res, offset', st') \<Longrightarrow> redir st' 3 = redir st 3"
proof (induction tok i offset st rule: handle_redir.induct)
  case (1 tok i offset st)
  show ?case
  proof (cases "id_rd_tok tok \<ge> 0")
    case False
    with "1.prems" show ?thesis
      by (simp add: handle_redir.simps [of tok i offset st])
  next
    case True
    have ne3: "id_rd_tok tok \<noteq> 3"
      using id_rd_tok_range [of tok] by auto
    from True "1.prems" obtain r tok1 offset1 st1 where
      s: "set_tok tok (id_rd_tok tok) i offset st = Inr (r, tok1, offset1, st1)"
      by (auto simp: handle_redir.simps [of tok i offset st] split: sum.splits)
    have a: "redir st1 3 = redir st 3"
      by (rule set_tok_redir3 [OF s ne3])
    show ?thesis
    proof (cases "r < 0")
      case True
      with \<open>id_rd_tok tok \<ge> 0\<close> s "1.prems" have "st' = st1"
        by (simp add: handle_redir.simps [of tok i offset st])
      with a show ?thesis by simp
    next
      case False
      with \<open>id_rd_tok tok \<ge> 0\<close> s "1.prems"
      have "handle_redir tok1 i offset1 st1 = Inr (res, offset', st')"
        by (simp add: handle_redir.simps [of tok i offset st])
      then have "redir st' 3 = redir st1 3"
        using "1.IH" [OF refl \<open>id_rd_tok tok \<ge> 0\<close> s refl refl refl False] by simp
      with a show ?thesis by simp
    qed
  qed
qed

lemma parse_loop_redir3:
  "parse_loop i curr_tok offset st = Inr res \<Longrightarrow>
     (case res of LoopErr st' \<Rightarrow> redir st' 3 = redir st 3
               | LoopEnd k st' \<Rightarrow> redir st' 3 = redir st 3)"
proof (induction i curr_tok offset st rule: parse_loop.induct)
  case (1 i curr_tok offset st)
  show ?case
  proof (cases "i < 512 \<and> curr_tok \<noteq> None")
    case False
    with "1.prems" show ?thesis
      by (auto simp: parse_loop.simps [of i curr_tok offset st])
  next
    case True
    obtain t st1 where n: "next_tok st = (t, st1)"
      by (cases "next_tok st") auto
    have r1: "redir st1 = redir st"
      by (rule next_tok_redir [OF n])
    from True n "1.prems" obtain tr offset1 st2 where
      h: "handle_redir t i offset st1 = Inr (tr, offset1, st2)"
      by (auto simp: parse_loop.simps [of i curr_tok offset st] split: sum.splits)
    have r2: "redir st2 3 = redir st 3"
      using handle_redir_redir3 [OF h] r1 by simp
    show ?thesis
    proof (cases tr)
      case RedirErr
      with True n h "1.prems" have "res = LoopErr st2"
        by (auto simp: parse_loop.simps [of i curr_tok offset st])
      with r2 show ?thesis by simp
    next
      case (Tok t')
      let ?st3 = "st2\<lparr>tokens := (tokens st2)(i + offset1 := t'), argv := (argv st2)(i := t')\<rparr>"
      from Tok True n h "1.prems" have b: "i + offset1 < 512"
        and rec: "parse_loop (i + 1) t' offset1 ?st3 = Inr res"
        by (auto simp: parse_loop.simps [of i curr_tok offset st] split: if_splits)
      have "case res of LoopErr st' \<Rightarrow> redir st' 3 = redir ?st3 3
               | LoopEnd k st' \<Rightarrow> redir st' 3 = redir ?st3 3"
        using "1.IH" [OF True refl n [symmetric] h [unfolded Tok] refl refl refl _ rec] b by simp
      with r2 show ?thesis by (auto split: loopres.splits)
    qed
  qed
qed

lemma parse_redir3:
  "parse buffer st = Inr (r, st') \<Longrightarrow> redir st' 3 = redir st 3"
proof -
  assume p: "parse buffer st = Inr (r, st')"
  obtain t0 st0 where n: "next_tok (st\<lparr>save := buffer\<rparr>) = (t0, st0)"
    by (cases "next_tok (st\<lparr>save := buffer\<rparr>)") auto
  have r0: "redir st0 = redir st"
    using next_tok_redir [OF n] by simp
  from p n obtain tr offset st1 where h: "handle_redir t0 0 0 st0 = Inr (tr, offset, st1)"
    by (auto simp: parse_def split: sum.splits)
  have r1: "redir st1 3 = redir st 3"
    using handle_redir_redir3 [OF h] r0 by simp
  show ?thesis
  proof (cases tr)
    case RedirErr
    with p n h r1 show ?thesis by (auto simp: parse_def)
  next
    case (Tok topt)
    show ?thesis
    proof (cases topt)
      case None
      with Tok p n h r1 show ?thesis by (auto simp: parse_def)
    next
      case (Some curr_tok)
      define st2 where "st2 = st1\<lparr>tokens := (tokens st1)(offset := Some curr_tok),
                          argv := (argv st1)(0 := Some curr_tok)\<rparr>"
      define st3 where "st3 = (if take 1 curr_tok = ''/''
                       then st2\<lparr>argv := (argv st2)(0 := strrchr curr_tok (CHR ''/''))\<rparr>
                       else st2)"
      have r3: "redir st3 3 = redir st 3"
        using r1 by (simp add: st3_def st2_def)
      from Some Tok p n h obtain lres where
        l: "parse_loop 1 (Some curr_tok) offset st3 = Inr lres"
        by (auto simp: parse_def Let_def st3_def st2_def split: if_splits sum.splits)
      have lr: "case lres of LoopErr st' \<Rightarrow> redir st' 3 = redir st3 3
               | LoopEnd k st' \<Rightarrow> redir st' 3 = redir st3 3"
        by (rule parse_loop_redir3 [OF l])
      from Some Tok p n h l lr r3 show ?thesis
        by (auto simp: parse_def Let_def st3_def st2_def
            split: if_splits loopres.splits option.splits)
    qed
  qed
qed

text \<open>A line of \<open>n\<close> characters has at most \<open>(n + 1) div 2\<close> tokens, and on a line of
  at most 511 tokens every store of \<open>parse\<close> is inside the arrays.\<close>

lemma strtok_None: "strtok s = (None, r) \<Longrightarrow> r = []"
  by (auto simp: strtok_def Let_def split: if_splits)

lemma strtok_Nil: "strtok [] = (None, [])"
  by (simp add: strtok_def)

lemma ntok_Nil: "ntok [] = 0"
  by (simp add: ntok.simps [of "[]"] strtok_Nil)

lemma strtok_rest:
  assumes "strtok s = (Some t, r)"
  shows "r = [] \<or> length r + 2 \<le> length s"
proof -
  let ?s1 = "dropWhile delim s"
  from assms have ne: "?s1 \<noteq> []" and r: "r = drop 1 (dropWhile (\<lambda>c. \<not> delim c) ?s1)"
    by (auto simp: strtok_def Let_def split: if_splits)
  from ne obtain x xs where x: "?s1 = x # xs"
    by (cases ?s1) auto
  have "\<not> delim x"
    using x hd_dropWhile [of delim s] by auto
  then have d: "dropWhile (\<lambda>c. \<not> delim c) ?s1 = dropWhile (\<lambda>c. \<not> delim c) xs"
    using x by simp
  have l1: "length (dropWhile (\<lambda>c. \<not> delim c) xs) \<le> length xs"
    by (rule length_dropWhile_le)
  have l2: "Suc (length xs) \<le> length s"
    using x length_dropWhile_le [of delim s] by simp
  show ?thesis
  proof (cases "dropWhile (\<lambda>c. \<not> delim c) xs")
    case Nil
    with r d show ?thesis by simp
  next
    case (Cons y ys)
    with r d have "Suc (length r) = length (dropWhile (\<lambda>c. \<not> delim c) xs)"
      by simp
    with l1 l2 show ?thesis by simp
  qed
qed

lemma ntok_bound: "ntok s \<le> (length s + 1) div 2"
proof (induction s rule: ntok.induct)
  case (1 s)
  obtain t r where st: "strtok s = (t, r)"
    by (cases "strtok s") auto
  show ?case
  proof (cases t)
    case None
    with st show ?thesis
      by (simp add: ntok.simps [of s])
  next
    case (Some tk)
    with st have n: "ntok s = Suc (ntok r)"
      by (simp add: ntok.simps [of s])
    have ih: "ntok r \<le> (length r + 1) div 2"
      using "1.IH" [OF st [symmetric, unfolded Some] refl] Some st by simp
    have "length r < length s"
      by (rule strtok_shorter [of s tk]) (use st Some in simp)
    then have pos: "0 < length s"
      by linarith
    from strtok_rest [of s tk r] st Some have "r = [] \<or> length r + 2 \<le> length s"
      by simp
    then show ?thesis
    proof
      assume "r = []"
      then have "ntok s = 1"
        using n by (simp add: ntok_Nil)
      with pos show ?thesis
        by arith
    next
      assume "length r + 2 \<le> length s"
      with n ih show ?thesis by arith
    qed
  qed
qed

lemma next_tok_cases:
  assumes "next_tok st = (t, st')"
  shows "tokens st' = tokens st \<and> argv st' = argv st \<and> redir st' = redir st \<and>
         perr st' = perr st \<and>
         (case t of None \<Rightarrow> ntok (save st') = 0 | Some x \<Rightarrow> ntok (save st) = Suc (ntok (save st')))"
proof -
  obtain r where s: "strtok (save st) = (t, r)" and st': "st' = st\<lparr>save := r\<rparr>"
    using assms by (auto simp: next_tok_def split: prod.splits)
  show ?thesis
  proof (cases t)
    case None
    with s have "r = []"
      by (auto dest: strtok_None)
    with None st' show ?thesis
      by (simp add: ntok_Nil)
  next
    case (Some x)
    with s have "ntok (save st) = Suc (ntok r)"
      by (simp add: ntok.simps [of "save st"])
    with Some st' show ?thesis
      by simp
  qed
qed

lemma next_tok_room:
  assumes "next_tok st = (t, st')" and "k + ntok (save st) \<le> n"
  shows "room k t st' n"
  using next_tok_cases [OF assms(1)] assms(2)
  by (cases t) (auto simp: room_def)

lemma id_rd_tok_nonneg: "0 \<le> id_rd_tok tok \<Longrightarrow> tok \<noteq> None \<and> id_rd_tok tok < 4"
  by (auto simp: id_rd_tok_def split: option.splits if_splits)

lemma set_tok_returns:
  assumes "tok \<noteq> None" and "0 \<le> mode" and "mode < 4"
    and "room (i + offset) tok st n" and "n \<le> 511"
  shows "\<exists>r t' offset' st'. set_tok tok mode i offset st = Inr (r, t', offset', st') \<and>
           argv st' = argv st \<and> (\<not> r < 0 \<longrightarrow> room (i + offset') t' st' n)"
proof -
  let ?st1 = "st\<lparr>tokens := (tokens st)(i + offset := tok)\<rparr>"
  obtain t1 st2 where n1: "next_tok ?st1 = (t1, st2)"
    by (cases "next_tok ?st1") auto
  let ?st4 = "st2\<lparr>tokens := (tokens st2)(i + (offset + 1) := t1),
        redir := (redir st2)(nat mode := int (i + (offset + 1)))\<rparr>"
  obtain t2 st5 where n2: "next_tok ?st4 = (t2, st5)"
    by (cases "next_tok ?st4") auto
  have b0: "i + offset < 512" and r0: "i + offset + 1 + ntok (save st) \<le> n"
    using assms(1,4,5) by (auto simp: room_def)
  have c1: "argv st2 = argv st \<and> perr st2 = perr st \<and>
      (case t1 of None \<Rightarrow> ntok (save st2) = 0 | Some x \<Rightarrow> ntok (save st) = Suc (ntok (save st2)))"
    using next_tok_cases [OF n1] by (cases t1) auto
  have c2: "argv st5 = argv st2 \<and>
      (case t2 of None \<Rightarrow> ntok (save st5) = 0 | Some x \<Rightarrow> ntok (save st2) = Suc (ntok (save st5)))"
    using next_tok_cases [OF n2] by (cases t2) auto
  show ?thesis
  proof (cases t1)
    case None
    with n1 b0 c1 show ?thesis
      by (simp add: set_tok_def Let_def)
  next
    case (Some x)
    with c1 r0 have b1: "i + (offset + 1) < 512" and r1: "i + offset + 2 + ntok (save st2) \<le> n"
      using assms(5) by auto
    have r2: "room (i + (offset + 2)) t2 st5 n"
      using c2 r1 by (cases t2) (auto simp: room_def)
    from Some n1 n2 b0 b1 c1 c2 r2 assms(2,3) show ?thesis
      by (simp add: set_tok_def Let_def add.assoc)
  qed
qed

lemma handle_redir_returns:
  "room (i + offset) tok st n \<Longrightarrow> n \<le> 511 \<Longrightarrow>
     \<exists>res offset' st'. handle_redir tok i offset st = Inr (res, offset', st') \<and>
        argv st' = argv st \<and> (\<forall>t'. res = Tok t' \<longrightarrow> room (i + offset') t' st' n)"
proof (induction tok i offset st rule: handle_redir.induct)
  case (1 tok i offset st)
  show ?case
  proof (cases "id_rd_tok tok \<ge> 0")
    case False
    with "1.prems" show ?thesis
      by (simp add: handle_redir.simps [of tok i offset st])
  next
    case True
    then have "tok \<noteq> None" and "id_rd_tok tok < 4"
      using id_rd_tok_nonneg [of tok] by auto
    with True "1.prems" obtain r tok1 offset1 st1 where
      s: "set_tok tok (id_rd_tok tok) i offset st = Inr (r, tok1, offset1, st1)"
      and a: "argv st1 = argv st" and rm: "\<not> r < 0 \<longrightarrow> room (i + offset1) tok1 st1 n"
      using set_tok_returns [of tok "id_rd_tok tok" i offset st n] by blast
    show ?thesis
    proof (cases "r < 0")
      case True
      with \<open>id_rd_tok tok \<ge> 0\<close> s a show ?thesis
        by (simp add: handle_redir.simps [of tok i offset st])
    next
      case False
      with rm have "room (i + offset1) tok1 st1 n"
        by simp
      then obtain res offset' st' where
        h: "handle_redir tok1 i offset1 st1 = Inr (res, offset', st')"
        and a': "argv st' = argv st1" and rm': "\<forall>t'. res = Tok t' \<longrightarrow> room (i + offset') t' st' n"
        using "1.IH" [OF refl \<open>id_rd_tok tok \<ge> 0\<close> s refl refl refl False _ "1.prems"(2)]
        by blast
      from False \<open>id_rd_tok tok \<ge> 0\<close> s h have
        "handle_redir tok i offset st = Inr (res, offset', st')"
        by (simp add: handle_redir.simps [of tok i offset st])
      with a a' rm' show ?thesis
        by simp
    qed
  qed
qed

lemma parse_loop_returns:
  "1 \<le> i \<Longrightarrow> (curr_tok \<noteq> None \<longrightarrow> argv st (i - 1) \<noteq> None) \<Longrightarrow>
   (2 \<le> i \<longrightarrow> argv st (i - 2) \<noteq> None) \<Longrightarrow>
   (curr_tok \<noteq> None \<longrightarrow> i + offset + ntok (save st) \<le> n) \<Longrightarrow> n \<le> 511 \<Longrightarrow>
   (i = 1 \<longrightarrow> curr_tok \<noteq> None) \<Longrightarrow>
     \<exists>res. parse_loop i curr_tok offset st = Inr res \<and>
       (\<forall>k st'. res = LoopEnd k st' \<longrightarrow> 2 \<le> k \<and> argv st' (k - 2) \<noteq> None)"
proof (induction i curr_tok offset st rule: parse_loop.induct)
  case (1 i curr_tok offset st)
  show ?case
  proof (cases "i < 512 \<and> curr_tok \<noteq> None")
    case False
    with "1.prems" have i2: "2 \<le> i"
      by (cases "i = 1") auto
    from False have "parse_loop i curr_tok offset st = Inr (LoopEnd i st)"
      by (auto simp: parse_loop.simps [of i curr_tok offset st])
    with i2 "1.prems"(3) show ?thesis
      by simp
  next
    case True
    obtain t st1 where nt: "next_tok st = (t, st1)"
      by (cases "next_tok st") auto
    have rm1: "room (i + offset) t st1 n"
      using next_tok_room [OF nt] "1.prems"(4) True by simp
    have a1: "argv st1 = argv st"
      using next_tok_cases [OF nt] by simp
    from handle_redir_returns [OF rm1 "1.prems"(5)] obtain res offset1 st2 where
      h: "handle_redir t i offset st1 = Inr (res, offset1, st2)"
      and a2: "argv st2 = argv st1"
      and rm2: "\<forall>t'. res = Tok t' \<longrightarrow> room (i + offset1) t' st2 n"
      by blast
    show ?thesis
    proof (cases res)
      case RedirErr
      with True nt h show ?thesis
        by (simp add: parse_loop.simps [of i curr_tok offset st])
    next
      case (Tok t')
      let ?st3 = "st2\<lparr>tokens := (tokens st2)(i + offset1 := t'), argv := (argv st2)(i := t')\<rparr>"
      from Tok rm2 have rm: "room (i + offset1) t' st2 n"
        by simp
      then have b: "i + offset1 < 512"
        using "1.prems"(5) by (auto simp: room_def split: if_splits)
      have p1: "1 \<le> i + 1" by simp
      have p2: "t' \<noteq> None \<longrightarrow> argv ?st3 (i + 1 - 1) \<noteq> None"
        by simp
      have p3: "2 \<le> i + 1 \<longrightarrow> argv ?st3 (i + 1 - 2) \<noteq> None"
        using True "1.prems"(1,2) a1 a2 by (cases "i = 0") (auto simp: numeral_2_eq_2)
      have p4: "t' \<noteq> None \<longrightarrow> i + 1 + offset1 + ntok (save ?st3) \<le> n"
        using rm by (auto simp: room_def)
      have p6: "i + 1 = 1 \<longrightarrow> t' \<noteq> None"
        using "1.prems"(1) by simp
      have "\<exists>res. parse_loop (i + 1) t' offset1 ?st3 = Inr res \<and>
         (\<forall>k st'. res = LoopEnd k st' \<longrightarrow> 2 \<le> k \<and> argv st' (k - 2) \<noteq> None)"
        using "1.IH" [OF True refl nt [symmetric] h [unfolded Tok] refl refl refl _
            p1 p2 p3 p4 "1.prems"(5) p6] b
        by simp
      moreover have "parse_loop i curr_tok offset st = parse_loop (i + 1) t' offset1 ?st3"
        using True nt h Tok b by (simp add: parse_loop.simps [of i curr_tok offset st])
      ultimately show ?thesis
        by simp
    qed
  qed
qed

lemma strrchr_found: "c \<in> set s \<Longrightarrow> strrchr s c \<noteq> None"
  by (induction s) (auto split: option.splits)

lemma parse_returns_ntok:
  assumes "ntok buffer \<le> 511"
  shows "\<exists>r st'. parse buffer st = Inr (r, st')"
proof -
  define n where "n = ntok buffer"
  obtain t0 st0 where nt: "next_tok (st\<lparr>save := buffer\<rparr>) = (t0, st0)"
    by (cases "next_tok (st\<lparr>save := buffer\<rparr>)") auto
  have n511: "n \<le> 511"
    using assms by (simp add: n_def)
  have "room (0 + 0) t0 st0 n"
    by (rule next_tok_room [OF nt]) (simp add: n_def)
  from handle_redir_returns [OF this n511] obtain res offset st1 where
    h: "handle_redir t0 0 0 st0 = Inr (res, offset, st1)"
    and rm: "\<forall>t'. res = Tok t' \<longrightarrow> room (0 + offset) t' st1 n"
    by blast
  show ?thesis
  proof (cases res)
    case RedirErr
    with nt h show ?thesis
      by (simp add: parse_def)
  next
    case (Tok topt)
    show ?thesis
    proof (cases topt)
      case None
      with Tok nt h show ?thesis
        by (simp add: parse_def)
    next
      case (Some curr_tok)
      define st2 where "st2 = st1\<lparr>tokens := (tokens st1)(offset := Some curr_tok),
                          argv := (argv st1)(0 := Some curr_tok)\<rparr>"
      define st3 where "st3 = (if take 1 curr_tok = ''/''
                       then st2\<lparr>argv := (argv st2)(0 := strrchr curr_tok (CHR ''/''))\<rparr>
                       else st2)"
      from Some Tok rm have rm0: "offset + 1 + ntok (save st1) \<le> n"
        by (simp add: room_def)
      then have b: "offset < 512"
        using n511 by simp
      have "take 1 curr_tok = ''/'' \<Longrightarrow> CHR ''/'' \<in> set curr_tok"
        by (cases curr_tok) auto
      then have "take 1 curr_tok = ''/'' \<Longrightarrow> strrchr curr_tok (CHR ''/'') \<noteq> None"
        by (rule strrchr_found)
      then have a0: "argv st3 0 \<noteq> None"
        by (simp add: st3_def st2_def)
      have sv: "save st3 = save st1"
        by (simp add: st3_def st2_def)
      have "\<exists>lres. parse_loop 1 (Some curr_tok) offset st3 = Inr lres \<and>
         (\<forall>k st'. lres = LoopEnd k st' \<longrightarrow> 2 \<le> k \<and> argv st' (k - 2) \<noteq> None)"
        by (rule parse_loop_returns [where n = n]) (use a0 rm0 sv n511 in auto)
      then obtain lres where l: "parse_loop 1 (Some curr_tok) offset st3 = Inr lres"
        and e: "\<forall>k st'. lres = LoopEnd k st' \<longrightarrow> 2 \<le> k \<and> argv st' (k - 2) \<noteq> None"
        by blast
      show ?thesis
      proof (cases lres)
        case (LoopErr st4)
        with Some Tok nt h b l show ?thesis
          by (cases "take 1 curr_tok = ''/''") (simp_all add: parse_def Let_def st3_def st2_def)
      next
        case (LoopEnd k st4)
        with e have "2 \<le> k" and "argv st4 (k - 2) \<noteq> None"
          by auto
        then obtain a where "argv st4 (k - 2) = Some a"
          by auto
        with LoopEnd \<open>2 \<le> k\<close> Some Tok nt h b l show ?thesis
          by (cases "take 1 curr_tok = ''/''") (simp_all add: parse_def Let_def st3_def st2_def)
      qed
    qed
  qed
qed

lemma parse_returns:
  "length buffer \<le> 1022 \<Longrightarrow> \<exists>r st'. parse buffer st = Inr (r, st')"
proof -
  assume "length buffer \<le> 1022"
  then have "ntok buffer \<le> 511"
    using ntok_bound [of buffer] by simp
  then show ?thesis
    by (rule parse_returns_ntok)
qed

text \<open>
  Claim C1. On every input line on which \<open>parse\<close> returns (with the argument count or
  with \<open>-1\<close>), the entry \<open>redir[3]\<close>, which \<open>run_prog\<close> reads as the background flag, is
  what it was before the call: \<open>set_tok\<close> stores to the entries 0, 1 and 2 only, and the
  test of the last token against \<^verbatim>\<open>"&"\<close> only compares \<open>redir[3]\<close> with \<open>1\<close>. And \<open>parse\<close>
  returns on every line of at most 1022 characters, which has at most 511 tokens (on a
  longer line the stores may leave the array \<^verbatim>\<open>tokens[512]\<close>). In the buffers of \<open>main\<close>
  the entry is \<open>0\<close> and stays \<open>0\<close>, so no line is handed on as a background command,
  also not one that ends in \<^verbatim>\<open>&\<close>.
\<close>

theorem parse_keeps_background_flag:
  "(parse buffer st = Inr (r, st') \<longrightarrow> redir st' 3 = redir st 3) \<and>
   (parse buffer main_bufs = Inr (r, st') \<longrightarrow> redir st' 3 = 0) \<and>
   (length buffer \<le> 1022 \<longrightarrow> (\<exists>r' st''. parse buffer st = Inr (r', st'')))"
proof -
  have "parse buffer main_bufs = Inr (r, st') \<longrightarrow> redir st' 3 = redir main_bufs 3"
    using parse_redir3 [of buffer main_bufs r st'] by blast
  then have "parse buffer main_bufs = Inr (r, st') \<longrightarrow> redir st' 3 = 0"
    by (simp add: main_bufs_def)
  then show ?thesis
    using parse_redir3 [of buffer st r st'] parse_returns [of buffer st] by blast
qed

text \<open>The line \<^verbatim>\<open>/bin/sleep 5 &\<close> in the buffers of \<open>main\<close>: three arguments, the last
  of them \<^verbatim>\<open>&\<close>, and the flag still \<open>0\<close>.\<close>

theorem parse_keeps_background_flag_witness:
  "\<exists>st'. parse ''/bin/sleep 5 &'' main_bufs = Inr (3, st') \<and> argv st' 2 = Some ''&'' \<and>
         redir st' 3 = redir main_bufs 3 \<and> redir st' 3 = 0"
proof -
  have "(case parse ''/bin/sleep 5 &'' main_bufs of
           Inl f \<Rightarrow> None
         | Inr (r, st) \<Rightarrow> Some (r, argv st 2)) = Some (3, Some ''&'')"
    by code_simp
  then obtain st' where p: "parse ''/bin/sleep 5 &'' main_bufs = Inr (3, st')"
    and a: "argv st' 2 = Some ''&''"
    by (auto split: sum.splits)
  have r: "redir st' 3 = redir main_bufs 3"
    using parse_keeps_background_flag [of "''/bin/sleep 5 &''" main_bufs 3 st'] p by blast
  then have "redir st' 3 = 0"
    by (simp add: main_bufs_def)
  with p a r show ?thesis by blast
qed

section \<open>The job list and the checked calls\<close>

lemma get_job_jid_absent:
  "\<forall>j\<in>set js. pid j \<noteq> p \<Longrightarrow> get_job_jid js p = - 1"
  by (induction js) (auto simp: get_job_jid_def)

lemma remove_job_pid_absent:
  "\<forall>j\<in>set js. pid j \<noteq> p \<Longrightarrow> remove_job_pid js p = js"
  by (induction js) auto

lemma update_job_pid_absent:
  "\<forall>j\<in>set js. pid j \<noteq> p \<Longrightarrow> update_job_pid js p st = js"
  by (induction js) auto

lemma get_job_jid_split:
  "pid j = p \<Longrightarrow> \<forall>k\<in>set before. pid k \<noteq> p \<Longrightarrow> get_job_jid (before @ j # after) p = jid j"
  by (induction before) (auto simp: get_job_jid_def)

lemma remove_job_pid_split:
  "pid j = p \<Longrightarrow> \<forall>k\<in>set before. pid k \<noteq> p \<Longrightarrow>
     remove_job_pid (before @ j # after) p = before @ after"
  by (induction before) auto

lemma update_job_pid_split:
  "pid j = p \<Longrightarrow> \<forall>k\<in>set before. pid k \<noteq> p \<Longrightarrow>
     update_job_pid (before @ j # after) p st = before @ j\<lparr>state := st\<rparr> # after"
  by (induction before) auto


lemma length_update_job_pid [simp]: "length (update_job_pid js p st) = length js"
  by (induction js) auto

lemma map_pid_update [simp]: "map pid (update_job_pid js p st) = map pid js"
  by (induction js) auto




lemma show_int_minus1: "show_int (- 1) = ''-1''"
  by code_simp

lemma take_min_length [simp]: "take (min (length xs) n) xs = take n xs"
  by (simp add: min_def)

lemma take_snprintf128 [simp]: "take 1024 (snprintf 128 str) = snprintf 128 str"
  by (simp add: snprintf_def)

lemma take_snprintf64 [simp]: "take 1024 (snprintf 64 str) = snprintf 64 str"
  by (simp add: snprintf_def)

lemma take_snprintf32 [simp]: "take 1024 (snprintf 32 str) = snprintf 32 str"
  by (simp add: snprintf_def)

lemma checked_stdwrite_ok:
  "0 \<le> write_ret env \<Longrightarrow>
     checked_stdwrite env str s = Return () (s\<lparr>out := out s @ take 1024 str\<rparr>)"
  by (simp add: checked_stdwrite_def Let_def)






section \<open>The reaper\<close>

text \<open>
  Claim C4, as the code has it. \<open>reap\<close> prints its line whether or not the process group
  has an entry: for an \<open>Exited\<close> status, and for a \<open>Signaled\<close> status with a signal
  other than \<open>0\<close>, of a process group without an entry, the job list is left as it is
  and, when the write succeeds, the termination line is printed with \<open>-1\<close>, the result
  of the failed lookup of the job id, between the brackets (each text cut to the buffer
  that \<^verbatim>\<open>snprintf\<close> fills).
\<close>

theorem reap_reports_unregistered_termination:
  assumes "\<forall>j\<in>set (my_jobs s). pid j \<noteq> pgid"
    and "0 \<le> write_ret env"
    and "n \<noteq> 0"
  shows "reap env (Exited c) pgid s =
           Return () (s\<lparr>out := out s @
             snprintf 128 (''[-1] ('' @ show_int pgid @ '') '' @
               snprintf 64 (''terminated with exit status '' @ show_int c) @ [NL])\<rparr>) \<and>
         reap env (Signaled n) pgid s =
           Return () (s\<lparr>out := out s @
             snprintf 128 (''[-1] ('' @ show_int pgid @ '') '' @
               snprintf 32 (''terminated by signal '' @ show_int n) @ [NL])\<rparr>)"
  using assms
  by (simp add: reap_def Let_def checked_stdwrite_ok get_job_jid_absent remove_job_pid_absent
      show_int_minus1)

theorem reap_reports_unregistered_termination_witness:
  "reap os_ok (Exited 3) 300 two_jobs =
     Return () (two_jobs\<lparr>out := ''[-1] (300) terminated with exit status 3'' @ [NL]\<rparr>) \<and>
   reap os_ok (Signaled 15) 300 two_jobs =
     Return () (two_jobs\<lparr>out := ''[-1] (300) terminated by signal 15'' @ [NL]\<rparr>)"
proof -
  have a: "\<forall>j\<in>set (my_jobs two_jobs). pid j \<noteq> 300"
    by (simp add: two_jobs_def job_sleep_def job_cat_def)
  have b: "0 \<le> write_ret os_ok"
    by (simp add: os_ok_def)
  have c: "(15::int) \<noteq> 0"
    by simp
  have d: "snprintf 128 (''[-1] ('' @ show_int 300 @ '') '' @
               snprintf 64 (''terminated with exit status '' @ show_int 3) @ [NL]) =
           ''[-1] (300) terminated with exit status 3'' @ [NL]"
    by code_simp
  have e: "snprintf 128 (''[-1] ('' @ show_int 300 @ '') '' @
               snprintf 32 (''terminated by signal '' @ show_int 15) @ [NL]) =
           ''[-1] (300) terminated by signal 15'' @ [NL]"
    by code_simp
  have f: "out two_jobs = []"
    by (simp add: two_jobs_def)
  show ?thesis
    using reap_reports_unregistered_termination [OF a b c, of 3] d e f by simp
qed

text \<open>Claim C4 as stated fails: with no job registered, the status "killed by signal 9"
  of process group 100 makes \<open>reap\<close> print a line.\<close>

theorem reap_unregistered_counterexample:
  "reap os_ok (Signaled 9) 100 init_shell =
     Return () (init_shell\<lparr>out := ''[-1] (100) terminated by signal 9'' @ [NL]\<rparr>)"
  by code_simp

text \<open>
  Claim C5, as the code has it. When a registered job exits normally, \<open>reap\<close> removes
  its entry (the first one of that process group, the others keep their order) and,
  when the write succeeds, prints
  \<^verbatim>\<open>[<job_id>] (<pgid>) terminated with exit status <code>\<close>.
\<close>

theorem reap_reports_normal_exit:
  assumes "my_jobs s = before @ j # after"
    and "pid j = pgid"
    and "\<forall>k\<in>set before. pid k \<noteq> pgid"
    and "0 \<le> write_ret env"
  shows "reap env (Exited c) pgid s =
           Return () (s\<lparr>my_jobs := before @ after,
             out := out s @
               snprintf 128 (''['' @ show_int (jid j) @ ''] ('' @ show_int pgid @ '') '' @
                 snprintf 64 (''terminated with exit status '' @ show_int c) @ [NL])\<rparr>)"
  using assms
  by (simp add: reap_def Let_def checked_stdwrite_ok get_job_jid_split remove_job_pid_split)

theorem reap_reports_normal_exit_witness:
  "reap os_ok (Exited 0) 200 two_jobs =
     Return () (two_jobs\<lparr>my_jobs := [job_sleep],
       out := ''[2] (200) terminated with exit status 0'' @ [NL]\<rparr>)"
proof -
  have a: "my_jobs two_jobs = [job_sleep] @ job_cat # []"
    by (simp add: two_jobs_def)
  have b: "pid job_cat = 200"
    by (simp add: job_cat_def)
  have c: "\<forall>k\<in>set [job_sleep]. pid k \<noteq> 200"
    by (simp add: job_sleep_def)
  have d: "0 \<le> write_ret os_ok"
    by (simp add: os_ok_def)
  have e: "snprintf 128 (''['' @ show_int (jid job_cat) @ ''] ('' @ show_int 200 @ '') '' @
                 snprintf 64 (''terminated with exit status '' @ show_int 0) @ [NL]) =
           ''[2] (200) terminated with exit status 0'' @ [NL]"
    by code_simp
  have f: "out two_jobs = []"
    by (simp add: two_jobs_def)
  show ?thesis
    using reap_reports_normal_exit [OF a b c d, of 0] e f by simp
qed

text \<open>Claim C5 as stated fails: the running job 1 exits with status 0 and \<open>reap\<close>
  prints an exit-status line for it.\<close>

theorem reap_normal_exit_counterexample:
  "reap os_ok (Exited 0) 100 (init_shell\<lparr>my_jobs := [job_sleep], next_job := 2\<rparr>) =
     Return () (init_shell\<lparr>my_jobs := [], next_job := 2,
       out := ''[1] (100) terminated with exit status 0'' @ [NL]\<rparr>)"
  by code_simp

text \<open>
  Claim C6, as the code has it. For a \<open>Stopped\<close> status with a signal other than \<open>0\<close>,
  \<open>reap\<close> registers nothing and leaves \<open>next_job\<close> alone: the job list keeps its
  length, the entry of the process group (if there is one) gets the state \<open>STOPPED\<close>,
  and a list without such an entry is unchanged. In both cases, when the write
  succeeds, the line \<^verbatim>\<open>[<job_id>] (<pgid>) suspended by signal <signal>\<close> is printed,
  where the job id is the one looked up before the update: that of the entry, and
  \<open>-1\<close> when there is none.
\<close>

theorem reap_stopped_updates_only:
  assumes "n \<noteq> 0" and "0 \<le> write_ret env"
  shows "reap env (Stopped n) pgid s =
           Return () (s\<lparr>my_jobs := update_job_pid (my_jobs s) pgid STOPPED,
             out := out s @
               snprintf 128 (''['' @ show_int (get_job_jid (my_jobs s) pgid) @ ''] ('' @
                 show_int pgid @ '') '' @
                 snprintf 32 (''suspended by signal '' @ show_int n) @ [NL])\<rparr>) \<and>
         length (update_job_pid (my_jobs s) pgid STOPPED) = length (my_jobs s) \<and>
         (my_jobs s = before @ j # after \<and> pid j = pgid \<and> (\<forall>k\<in>set before. pid k \<noteq> pgid) \<longrightarrow>
            update_job_pid (my_jobs s) pgid STOPPED = before @ j\<lparr>state := STOPPED\<rparr> # after \<and>
            get_job_jid (my_jobs s) pgid = jid j) \<and>
         ((\<forall>k\<in>set (my_jobs s). pid k \<noteq> pgid) \<longrightarrow>
            update_job_pid (my_jobs s) pgid STOPPED = my_jobs s \<and>
            get_job_jid (my_jobs s) pgid = - 1)"
  using assms
  by (simp add: reap_def Let_def checked_stdwrite_ok get_job_jid_split update_job_pid_split
      get_job_jid_absent update_job_pid_absent)

theorem reap_stopped_updates_only_witness:
  "reap os_ok (Stopped 20) 200 two_jobs =
     Return () (two_jobs\<lparr>my_jobs := [job_sleep, job_cat\<lparr>state := STOPPED\<rparr>],
       out := ''[2] (200) suspended by signal 20'' @ [NL]\<rparr>) \<and>
   reap os_ok (Stopped 20) 300 two_jobs =
     Return () (two_jobs\<lparr>out := ''[-1] (300) suspended by signal 20'' @ [NL]\<rparr>)"
proof -
  have a: "(20::int) \<noteq> 0"
    by simp
  have b: "0 \<le> write_ret os_ok"
    by (simp add: os_ok_def)
  have c: "my_jobs two_jobs = [job_sleep] @ job_cat # [] \<and> pid job_cat = 200 \<and> (\<forall>k\<in>set [job_sleep]. pid k \<noteq> 200)"
    by (simp add: two_jobs_def job_sleep_def job_cat_def)
  have d: "\<forall>k\<in>set (my_jobs two_jobs). pid k \<noteq> 300"
    by (simp add: two_jobs_def job_sleep_def job_cat_def)
  have e: "snprintf 128 (''['' @ show_int (jid job_cat) @ ''] ('' @ show_int 200 @ '') '' @
              snprintf 32 (''suspended by signal '' @ show_int 20) @ [NL]) =
           ''[2] (200) suspended by signal 20'' @ [NL]"
    by code_simp
  have f: "snprintf 128 (''['' @ show_int (- 1) @ ''] ('' @ show_int 300 @ '') '' @
              snprintf 32 (''suspended by signal '' @ show_int 20) @ [NL]) =
           ''[-1] (300) suspended by signal 20'' @ [NL]"
    by code_simp
  have g: "out two_jobs = []"
    by (simp add: two_jobs_def)
  have 1: "reap os_ok (Stopped 20) 200 two_jobs =
     Return () (two_jobs\<lparr>my_jobs := [job_sleep, job_cat\<lparr>state := STOPPED\<rparr>],
       out := ''[2] (200) suspended by signal 20'' @ [NL]\<rparr>)"
    using reap_stopped_updates_only [OF a b, of 200 two_jobs "[job_sleep]" job_cat "[]"] c e g by simp
  have 2: "reap os_ok (Stopped 20) 300 two_jobs =
     Return () (two_jobs\<lparr>out := ''[-1] (300) suspended by signal 20'' @ [NL]\<rparr>)"
    using reap_stopped_updates_only [OF a b, of 300 two_jobs "[]" job_sleep "[]"] d f g by simp
  from 1 2 show ?thesis by simp
qed

text \<open>Claim C6 as stated fails: with no job registered, a stop of process group 100 is
  reported by \<open>reap\<close> but not registered, and no job id is assigned.\<close>

theorem reap_stopped_counterexample:
  "reap os_ok (Stopped 20) 100 init_shell =
     Return () (init_shell\<lparr>out := ''[-1] (100) suspended by signal 20'' @ [NL]\<rparr>) \<and>
   my_jobs init_shell = [] \<and> next_job init_shell = 1"
  by code_simp

lemma main_reap_loop_idle:
  "pending s = [] \<Longrightarrow> main_reap_loop env s = Return () s"
  by (simp add: main_reap_loop.simps)

lemma main_reap_loop_drains:
  "main_reap_loop env s = Return u s1 \<Longrightarrow> \<forall>e\<in>set (pending s). 0 < fst e \<Longrightarrow> pending s1 = []"
proof (induction env s rule: main_reap_loop.induct)
  case (1 env s)
  show ?case
  proof (cases "pending s")
    case Nil
    with "1.prems" show ?thesis
      by (simp add: main_reap_loop.simps [of env s])
  next
    case (Cons e rest)
    obtain p status where e: "e = (p, status)"
      by (cases e) auto
    from "1.prems"(2) Cons e have pos: "0 < p" and rest: "\<forall>e\<in>set rest. 0 < fst e"
      by auto
    from "1.prems"(1) Cons e pos obtain u' s' where
      r: "reap env status p (s\<lparr>pending := rest\<rparr>) = Return u' s'"
      and l: "main_reap_loop env s' = Return u s1"
      by (auto simp: main_reap_loop.simps [of env s] split: outcome.splits)
    have "pending s' = rest"
      using reap_pending [OF r] by simp
    with rest have w: "\<forall>e\<in>set (pending s'). 0 < fst e"
      by simp
    show ?thesis
      by (rule "1.IH" [OF Cons e [symmetric] pos r l w])
  qed
qed

text \<open>
  Claim C8. When the reaping loop has returned, having started with the pending status
  changes (each of a child, so with a positive process id), none is pending any more,
  and running the loop again at once returns the very same state: the job list, the
  counter and the output are what they were.
\<close>

theorem reaper_idempotent:
  assumes "main_reap_loop env s = Return u s1"
    and "\<forall>e\<in>set (pending s). 0 < fst e"
  shows "pending s1 = [] \<and> main_reap_loop env' s1 = Return () s1"
  using main_reap_loop_drains [OF assms] by (simp add: main_reap_loop_idle)

theorem reaper_idempotent_witness:
  "main_reap_loop os_ok (two_jobs\<lparr>pending := [(100, Exited 0), (200, Stopped 20)]\<rparr>) =
     Return () (two_jobs\<lparr>my_jobs := [job_cat\<lparr>state := STOPPED\<rparr>],
       out := ''[1] (100) terminated with exit status 0'' @ [NL] @
              ''[2] (200) suspended by signal 20'' @ [NL]\<rparr>) \<and>
   main_reap_loop os_ok (two_jobs\<lparr>my_jobs := [job_cat\<lparr>state := STOPPED\<rparr>],
       out := ''[1] (100) terminated with exit status 0'' @ [NL] @
              ''[2] (200) suspended by signal 20'' @ [NL]\<rparr>) =
     Return () (two_jobs\<lparr>my_jobs := [job_cat\<lparr>state := STOPPED\<rparr>],
       out := ''[1] (100) terminated with exit status 0'' @ [NL] @
              ''[2] (200) suspended by signal 20'' @ [NL]\<rparr>)"
proof -
  have a: "main_reap_loop os_ok (two_jobs\<lparr>pending := [(100, Exited 0), (200, Stopped 20)]\<rparr>) =
     Return () (two_jobs\<lparr>my_jobs := [job_cat\<lparr>state := STOPPED\<rparr>],
       out := ''[1] (100) terminated with exit status 0'' @ [NL] @
              ''[2] (200) suspended by signal 20'' @ [NL]\<rparr>)"
    by code_simp
  have b: "\<forall>e\<in>set (pending (two_jobs\<lparr>pending := [(100, Exited 0), (200, Stopped 20)]\<rparr>)).
             0 < fst e"
    by simp
  from reaper_idempotent [OF a b, of os_ok] a show ?thesis
    by simp
qed

section \<open>The builtins\<close>

text \<open>
  Claim C10. When the command is \<^verbatim>\<open>exit\<close>: with an argument count of \<open>1\<close> the job list
  is cleared and the process exits with status \<open>0\<close>; with any other count
  \<open>exec_builtins\<close> returns \<open>0\<close> to the loop of \<open>main\<close>, having written
  \<^verbatim>\<open>exit: syntax error\<close> and a newline (and, the length given to \<^verbatim>\<open>write\<close> being 20,
  the NUL after them) to standard error and changed nothing else.
\<close>

theorem exit_builtin:
  assumes "argv' 0 = Some ''exit''"
  shows "exec_builtins env argv' argc s =
           (if argc = 1 then Exit 0 (s\<lparr>my_jobs := []\<rparr>)
            else Return 0 (s\<lparr>err := err s @ ''exit: syntax error'' @ [NL, NUL]\<rparr>))"
  using assms
  by (simp add: exec_builtins_def strncmp_eq_def write_lit_def cleanup_def cleanup_job_list_def)

theorem exit_builtin_witness:
  "exec_builtins os_ok (argv_of [''exit'']) 1 two_jobs = Exit 0 (two_jobs\<lparr>my_jobs := []\<rparr>) \<and>
   exec_builtins os_ok (argv_of [''exit'', ''now'']) 2 two_jobs =
     Return 0 (two_jobs\<lparr>err := ''exit: syntax error'' @ [NL, NUL]\<rparr>)"
proof -
  have a: "argv_of [''exit''] 0 = Some ''exit''"
    by (simp add: argv_of_def)
  have b: "argv_of [''exit'', ''now''] 0 = Some ''exit''"
    by (simp add: argv_of_def)
  have c: "err two_jobs = []"
    by (simp add: two_jobs_def)
  show ?thesis
    using exit_builtin [where argv' = "argv_of [''exit'']" and env = os_ok and argc = 1
        and s = two_jobs]
      exit_builtin [where argv' = "argv_of [''exit'', ''now'']" and env = os_ok and argc = 2
        and s = two_jobs] a b c
    by simp
qed

text \<open>
  Claim C9 at the lines \<^verbatim>\<open>ln a b c\<close> and \<^verbatim>\<open>ln a\<close>: after the syntax error is reported,
  \<^verbatim>\<open>link\<close> is called all the same, with \<^verbatim>\<open>a\<close> and \<^verbatim>\<open>b\<close> in the first case (the call
  succeeds) and with \<^verbatim>\<open>a\<close> and \<^verbatim>\<open>NULL\<close> in the second (the call fails and \<^verbatim>\<open>perror\<close>
  reports it).
\<close>

theorem ln_links_after_syntax_error:
  "session [(os_line ''ln a b c'', Iteration False)] init_shell =
     Return ()
       (init_shell\<lparr>err := ''ln: syntax error'' @ [NL],
          calls := [Setsignal SIGINT SIG_IGN, Setsignal SIGTSTP SIG_IGN,
                    Setsignal SIGTTOU SIG_IGN, Link (Some ''a'') (Some ''b'')]\<rparr>) \<and>
   session [((os_line ''ln a'')\<lparr>sys_ret := - 1\<rparr>, Iteration False)] init_shell =
     Return ()
       (init_shell\<lparr>err := ''ln: syntax error'' @ [NL] @ ''ln: Bad address'' @ [NL],
          calls := [Setsignal SIGINT SIG_IGN, Setsignal SIGTSTP SIG_IGN,
                    Setsignal SIGTTOU SIG_IGN, Link (Some ''a'') None]\<rparr>)"
  by code_simp

text \<open>
  Claim C2 at a session of two lines: \<^verbatim>\<open>/bin/sleep 5\<close> is stopped by signal 20 and
  becomes job 1; then \<^verbatim>\<open>fg %1\<close>, and the job exits. For the first line \<open>run_prog\<close>
  hands the terminal back to the group of the shell (\<open>Tcsetpgrp 0 50\<close>, the child having
  taken it). For \<^verbatim>\<open>fg %1\<close> the calls are \<^verbatim>\<open>kill\<close> and \<^verbatim>\<open>waitpid\<close> only: the terminal is
  neither given to group 100 before the wait nor taken back after it.
\<close>

theorem fg_leaves_terminal_to_shell:
  "session [(os_line_status ''/bin/sleep 5'' (Stopped 20), Iteration False),
            (os_line ''fg %1'', Iteration False)] init_shell =
     Return ()
       \<lparr>my_jobs = [job_sleep], next_job = 2,
        out = ''[1] (100) suspended by signal 20'' @ [NL], err = [],
        calls = [Setsignal SIGINT SIG_IGN, Setsignal SIGTSTP SIG_IGN, Setsignal SIGTTOU SIG_IGN,
                 Fork, Waitpid 100 [WUNTRACED], Getpgrp, Tcsetpgrp 0 50,
                 Setsignal SIGINT SIG_IGN, Setsignal SIGTSTP SIG_IGN, Setsignal SIGTTOU SIG_IGN,
                 Kill 100 SIGCONT, Waitpid 100 [WUNTRACED]],
        pending = []\<rparr>"
  by code_simp

text \<open>
  Claim C3 at a session of three lines: \<^verbatim>\<open>/bin/sleep 5\<close> is stopped and becomes job 1;
  \<^verbatim>\<open>fg %1\<close> resumes it and it is killed by signal 9 (first session) or exits with
  status 0 (second session); \<^verbatim>\<open>jobs\<close>. After the job has terminated its entry is still
  in the job list, as running, and \<^verbatim>\<open>jobs\<close> lists it.
\<close>

theorem fg_keeps_terminated_job:
  "session [(os_line_status ''/bin/sleep 5'' (Stopped 20), Iteration False),
            (os_line_status ''fg %1'' (Signaled 9), Iteration False),
            (os_line ''jobs'', Iteration False)] init_shell =
     Return ()
       \<lparr>my_jobs = [job_sleep], next_job = 2,
        out = ''[1] (100) suspended by signal 20'' @ [NL] @
              ''[2] (100) terminated by signal 9'' @ [NL] @
              ''[1] (100) Running'' @ [NL], err = [],
        calls = [Setsignal SIGINT SIG_IGN, Setsignal SIGTSTP SIG_IGN, Setsignal SIGTTOU SIG_IGN,
                 Fork, Waitpid 100 [WUNTRACED], Getpgrp, Tcsetpgrp 0 50,
                 Setsignal SIGINT SIG_IGN, Setsignal SIGTSTP SIG_IGN, Setsignal SIGTTOU SIG_IGN,
                 Kill 100 SIGCONT, Waitpid 100 [WUNTRACED],
                 Setsignal SIGINT SIG_IGN, Setsignal SIGTSTP SIG_IGN, Setsignal SIGTTOU SIG_IGN],
        pending = []\<rparr> \<and>
   session [(os_line_status ''/bin/sleep 5'' (Stopped 20), Iteration False),
            (os_line_status ''fg %1'' (Exited 0), Iteration False),
            (os_line ''jobs'', Iteration False)] init_shell =
     Return ()
       \<lparr>my_jobs = [job_sleep], next_job = 2,
        out = ''[1] (100) suspended by signal 20'' @ [NL] @
              ''[1] (100) Running'' @ [NL], err = [],
        calls = [Setsignal SIGINT SIG_IGN, Setsignal SIGTSTP SIG_IGN, Setsignal SIGTTOU SIG_IGN,
                 Fork, Waitpid 100 [WUNTRACED], Getpgrp, Tcsetpgrp 0 50,
                 Setsignal SIGINT SIG_IGN, Setsignal SIGTSTP SIG_IGN, Setsignal SIGTTOU SIG_IGN,
                 Kill 100 SIGCONT, Waitpid 100 [WUNTRACED],
                 Setsignal SIGINT SIG_IGN, Setsignal SIGTSTP SIG_IGN, Setsignal SIGTTOU SIG_IGN],
        pending = []\<rparr>"
  by code_simp

section \<open>The job ids\<close>







































end
